theory Spec2Isabelle
  imports Main "HOL-Library.Word"
begin

section \<open>Values shared by the handlers\<close>

text \<open>
  The handlers are JavaScript. A property that may be missing from an object is an
  \<open>option\<close>; \<open>None\<close> is JavaScript's \<open>undefined\<close>. Times are epoch milliseconds
  (\<open>Date.now()\<close>), passed in as an argument at every place the source reads the clock.
\<close>

definition truthy :: "string option \<Rightarrow> bool" where
  \<comment> \<open>\<open>!!v\<close> for a string property: \<open>undefined\<close> and the empty string are falsy\<close>
  "truthy v = (case v of None \<Rightarrow> False | Some s \<Rightarrow> s \<noteq> [])"

definition interp :: "string option \<Rightarrow> string" where
  \<comment> \<open>\<open>${v}\<close> inside a template literal\<close>
  "interp v = (case v of None \<Rightarrow> ''undefined'' | Some s \<Rightarrow> s)"

datatype exn = StripeError | EmailError | FetchError

record token_rec =
  session_id :: string
  exp :: int

type_synonym tokens = "string \<rightharpoonup> token_rec"

record checkout_session =
  cs_id :: string
  cs_status :: string
  cs_payment_status :: string
  cs_customer :: string
  cs_mode :: string
  cs_subscription :: "string option"
  cs_metadata_productId :: "string option"
  cs_email :: "string option"
  cs_name :: "string option"

record request =
  http_method :: string
  body_session_id :: "string option"

datatype body =
    ErrorBody string
  | TokenBody string
  | VerifyBody bool "string option" "int option"
  | TextBody string
  | ReceivedBody
  | RedirectHome
  | ThanksPage string string

type_synonym response = "nat \<times> body"

subsection \<open>\<open>crypto.randomBytes(n).toString("hex")\<close>\<close>

definition hex_digit :: "nat \<Rightarrow> char" where
  \<comment> \<open>only applied to a nibble, \<open>n < 16\<close>\<close>
  "hex_digit n = ''0123456789abcdef'' ! n"

definition byte_hex :: "8 word \<Rightarrow> string" where
  "byte_hex b = [hex_digit (unat b div 16), hex_digit (unat b mod 16)]"

definition toString_hex :: "8 word list \<Rightarrow> string" where
  "toString_hex bs = concat (map byte_hex bs)"

section \<open>\<open>/api/make-download-token.js\<close>\<close>

definition handler :: "exn + checkout_session option \<Rightarrow> 8 word list \<Rightarrow> int \<Rightarrow>
    request \<Rightarrow> tokens \<Rightarrow> response \<times> tokens" where
  \<comment> \<open>\<open>retrieved\<close> is what \<open>stripe.checkout.sessions.retrieve(session_id)\<close> does (it
      throws, \<open>Inl\<close>, or returns), \<open>rb\<close> the value of \<open>crypto.randomBytes(24)\<close>,
      \<open>now\<close> the value of \<open>Date.now()\<close>\<close>
  "handler retrieved rb now req TOKENS =
     (if http_method req \<noteq> ''POST'' then ((405, ErrorBody ''Method not allowed''), TOKENS)
      else if \<not> truthy (body_session_id req) then ((400, ErrorBody ''missing session_id''), TOKENS)
      else
        (case retrieved of
           Inl err \<Rightarrow> ((500, ErrorBody ''cannot create token''), TOKENS)
         | Inr s \<Rightarrow>
             (if s = None \<or> cs_payment_status (the s) \<noteq> ''paid''
              then ((403, ErrorBody ''not paid''), TOKENS)
              else
                (let token = toString_hex rb
                 in ((200, TokenBody token),
                     TOKENS(token \<mapsto> \<lparr>session_id = the (body_session_id req),
                                       exp = now + 30 * 60 * 1000\<rparr>))))))"

definition consumeToken :: "int \<Rightarrow> string \<Rightarrow> tokens \<Rightarrow> token_rec option \<times> tokens" where
  "consumeToken now token TOKENS =
     (case TOKENS token of
        None \<Rightarrow> (None, TOKENS)
      | Some rec \<Rightarrow>
          (if now > exp rec then (None, TOKENS(token := None))
           else (Some rec, TOKENS(token := None))))"

text \<open>A sequence of \<open>consumeToken\<close> calls on one store, each with its clock reading.\<close>

fun consume_calls :: "(int \<times> string) list \<Rightarrow> tokens \<Rightarrow> token_rec option list \<times> tokens" where
  "consume_calls [] TOKENS = ([], TOKENS)"
| "consume_calls (c # cs) TOKENS =
     (let (r, TOKENS') = consumeToken (fst c) (snd c) TOKENS;
          (rs, TOKENS'') = consume_calls cs TOKENS'
      in (r # rs, TOKENS''))"

section \<open>\<open>/api/gateway.js\<close>: stores\<close>

text \<open>
  A license object is a JavaScript object assembled field by field, so every property may
  be missing. \<open>spread prev obj\<close> is \<open>{ ...prev, ...obj }\<close>.
\<close>

record lic_obj =
  licenseKey :: "string option"
  customerId :: "string option"
  productId :: "string option"
  email :: "string option"
  status :: "string option"
  currentPeriodEnd :: "int option"
  boundDevice :: "string option"
  deviceLimit :: "int option"
  updatedAt :: "int option"

record idx_obj =
  idx_customerId :: string
  idx_productId :: string

definition empty_obj :: lic_obj where
  "empty_obj = \<lparr>licenseKey = None, customerId = None, productId = None, email = None,
     status = None, currentPeriodEnd = None, boundDevice = None, deviceLimit = None,
     updatedAt = None\<rparr>"

definition over :: "'a option \<Rightarrow> 'a option \<Rightarrow> 'a option" where
  "over new old = (case new of None \<Rightarrow> old | Some v \<Rightarrow> Some v)"

definition spread :: "lic_obj \<Rightarrow> lic_obj \<Rightarrow> lic_obj" where
  "spread prev obj = \<lparr>licenseKey = over (licenseKey obj) (licenseKey prev),
     customerId = over (customerId obj) (customerId prev),
     productId = over (productId obj) (productId prev),
     email = over (email obj) (email prev),
     status = over (status obj) (status prev),
     currentPeriodEnd = over (currentPeriodEnd obj) (currentPeriodEnd prev),
     boundDevice = over (boundDevice obj) (boundDevice prev),
     deviceLimit = over (deviceLimit obj) (deviceLimit prev),
     updatedAt = over (updatedAt obj) (updatedAt prev)\<rparr>"

text \<open>
  The three in-memory maps of the gateway, \<open>MEM_TOKENS\<close>, \<open>MEM_LICENSES\<close> and
  \<open>MEM_INDEX\<close>: the branch of every store wrapper that is written out in the file.
  With a KV client the same objects are kept as hashes of one key space, under the
  prefixes \<open>token:\<close>, \<open>license:\<close> and \<open>licenseIndex:\<close>, read whole and merged field by
  field as here. Requests are taken one at a time.
\<close>

record gw_state =
  MEM_TOKENS :: tokens
  MEM_LICENSES :: "string \<rightharpoonup> lic_obj"
  MEM_INDEX :: "string \<rightharpoonup> idx_obj"

definition init_state :: gw_state where
  "init_state = \<lparr>MEM_TOKENS = Map.empty, MEM_LICENSES = Map.empty, MEM_INDEX = Map.empty\<rparr>"

definition PRODUCT_ID_DEFAULT :: string where
  "PRODUCT_ID_DEFAULT = ''truetrend-ai''"

definition GOOD_STATUSES :: "string set" where
  "GOOD_STATUSES = {''active'', ''trialing''}"

definition kvHGetAll :: "string \<Rightarrow> gw_state \<Rightarrow> lic_obj option" where
  "kvHGetAll key st = MEM_LICENSES st key"

definition kvHSet :: "string \<Rightarrow> lic_obj \<Rightarrow> gw_state \<Rightarrow> gw_state" where
  "kvHSet key obj st =
     (let prev = (case MEM_LICENSES st key of None \<Rightarrow> empty_obj | Some v \<Rightarrow> v)
      in st\<lparr>MEM_LICENSES := (MEM_LICENSES st)(key \<mapsto> spread prev obj)\<rparr>)"

definition kvIndexGet :: "string \<Rightarrow> gw_state \<Rightarrow> idx_obj option" where
  "kvIndexGet key st = MEM_INDEX st key"

definition kvIndexSet :: "string \<Rightarrow> idx_obj \<Rightarrow> gw_state \<Rightarrow> gw_state" where
  "kvIndexSet key obj st = st\<lparr>MEM_INDEX := (MEM_INDEX st)(key \<mapsto> obj)\<rparr>"

definition tokenSet :: "string \<Rightarrow> token_rec \<Rightarrow> gw_state \<Rightarrow> gw_state" where
  "tokenSet token rec st = st\<lparr>MEM_TOKENS := (MEM_TOKENS st)(token \<mapsto> rec)\<rparr>"

definition tokenConsume :: "int \<Rightarrow> string \<Rightarrow> gw_state \<Rightarrow> token_rec option \<times> gw_state" where
  "tokenConsume now token st =
     (case MEM_TOKENS st token of
        None \<Rightarrow> (None, st)
      | Some rec \<Rightarrow>
          (if now > exp rec then (None, st\<lparr>MEM_TOKENS := (MEM_TOKENS st)(token := None)\<rparr>)
           else (Some rec, st\<lparr>MEM_TOKENS := (MEM_TOKENS st)(token := None)\<rparr>)))"

fun tokenConsume_calls :: "(int \<times> string) list \<Rightarrow> gw_state \<Rightarrow> token_rec option list \<times> gw_state" where
  "tokenConsume_calls [] st = ([], st)"
| "tokenConsume_calls (c # cs) st =
     (let (r, st') = tokenConsume (fst c) (snd c) st;
          (rs, st'') = tokenConsume_calls cs st'
      in (r # rs, st''))"

subsection \<open>License helpers\<close>

definition toUpperCase_char :: "char \<Rightarrow> char" where
  "toUpperCase_char c =
     (case map_of (zip ''abcdefghijklmnopqrstuvwxyz'' ''ABCDEFGHIJKLMNOPQRSTUVWXYZ'') c of
        None \<Rightarrow> c
      | Some u \<Rightarrow> u)"

definition randomKey :: "string \<Rightarrow> string \<Rightarrow> string \<Rightarrow> string" where
  \<comment> \<open>\<open>r1\<close>, \<open>r2\<close> are the two values of \<open>Math.random().toString(36).slice(2,10)\<close>\<close>
  "randomKey prefix r1 r2 = map toUpperCase_char (prefix @ ''-'' @ r1 @ ''-'' @ r2)"

record ensure_args =
  a_customerId :: string
  a_email :: "string option"
  a_productId :: string
  a_status :: string
  a_currentPeriodEnd :: int

definition license_key_of :: "string \<Rightarrow> string \<Rightarrow> string" where
  \<comment> \<open>the template literal \<open>license:${customerId}:${productId}\<close>\<close>
  "license_key_of cid pid = ''license:'' @ cid @ '':'' @ pid"

definition index_key_of :: "string \<Rightarrow> string" where
  \<comment> \<open>the template literal \<open>licenseIndex:${licenseKey}\<close>\<close>
  "index_key_of lk = ''licenseIndex:'' @ lk"

definition ensureLicense :: "string \<Rightarrow> string \<Rightarrow> int \<Rightarrow> ensure_args \<Rightarrow> gw_state \<Rightarrow>
    (bool \<times> string) \<times> gw_state" where
  \<comment> \<open>the result pair is \<open>{ created, licenseKey }\<close>\<close>
  "ensureLicense r1 r2 now a st =
     (let key = license_key_of (a_customerId a) (a_productId a);
          existing = kvHGetAll key st
      in if existing = None \<or> \<not> truthy (licenseKey (the existing)) then
           (let lk = randomKey ''LIC'' r1 r2;
                st1 = kvHSet key
                  \<lparr>licenseKey = Some lk,
                   customerId = Some (a_customerId a),
                   productId = Some (a_productId a),
                   email = Some (if truthy (a_email a) then the (a_email a) else []),
                   status = Some (a_status a),
                   currentPeriodEnd =
                     Some (if a_currentPeriodEnd a \<noteq> 0 then a_currentPeriodEnd a else 0),
                   boundDevice = Some [],
                   deviceLimit = Some 1,
                   updatedAt = Some now\<rparr> st;
                st2 = kvIndexSet (index_key_of lk)
                  \<lparr>idx_customerId = a_customerId a, idx_productId = a_productId a\<rparr> st1
            in ((True, lk), st2))
         else
           (let st1 = kvHSet key
                  (empty_obj\<lparr>status := Some (a_status a),
                     currentPeriodEnd :=
                       Some (if a_currentPeriodEnd a \<noteq> 0 then a_currentPeriodEnd a
                             else (case currentPeriodEnd (the existing) of
                                     None \<Rightarrow> 0
                                   | Some e \<Rightarrow> if e \<noteq> 0 then e else 0)),
                     updatedAt := Some now\<rparr>) st
            in ((False, the (licenseKey (the existing))), st1)))"

definition getLicenseByKey :: "string \<Rightarrow> string \<Rightarrow> gw_state \<Rightarrow> lic_obj option" where
  "getLicenseByKey lk pid st =
     (case kvIndexGet (index_key_of lk) st of
        None \<Rightarrow> None
      | Some idx \<Rightarrow> kvHGetAll (license_key_of (idx_customerId idx) pid) st)"

definition markCanceled :: "int \<Rightarrow> string \<Rightarrow> string \<Rightarrow> gw_state \<Rightarrow> gw_state" where
  \<comment> \<open>the last three lines of the cancellation branch of \<open>handleStripeWebhook\<close>\<close>
  "markCanceled now cid pid st =
     (let key = license_key_of cid pid;
          existing = kvHGetAll key st
      in if existing \<noteq> None
         then kvHSet key (empty_obj\<lparr>status := Some ''canceled'', updatedAt := Some now\<rparr>) st
         else st)"

subsection \<open>Collaborators of the gateway\<close>

text \<open>
  Calls that leave the process are arguments of the model: a request makes each of them
  at most once, and the environment holds what the call does, returning a value
  (\<open>Inr\<close>) or throwing (\<open>Inl\<close>). \<open>e_resend\<close> says whether \<open>RESEND_API_KEY\<close> is set;
  \<open>e_send_email\<close> is what \<open>resend.emails.send\<close> does (\<open>None\<close>: it resolves).
  The lines written by \<open>console.error\<close> are part of the result of the three webhook
  handlers, where a claim speaks of logging; the other handlers' logging is left out.
\<close>

record subscription =
  sub_customer :: string
  sub_status :: string
  sub_current_period_end :: int
  sub_product :: "string option"

record invoice =
  inv_customer :: string
  inv_subscription :: string

datatype event =
    CheckoutSessionCompleted checkout_session
  | SubscriptionCreated subscription
  | SubscriptionUpdated subscription
  | SubscriptionDeleted subscription
  | InvoicePaymentFailed invoice
  | OtherEvent

record gw_env =
  e_create_session :: "exn + string"
  e_retrieve_session :: "exn + checkout_session option"
  e_retrieve_subscription :: "exn + subscription"
  e_resend :: bool
  e_send_email :: "exn option"
  e_getSignedUrl :: "exn + string"
  e_site :: string

subsection \<open>Actions\<close>

definition download_url :: "string \<Rightarrow> string \<Rightarrow> string" where
  \<comment> \<open>\<open>encodeURIComponent\<close> leaves the hexadecimal digits of a token as they are\<close>
  "download_url site token = site @ ''/api/gateway?action=download&token='' @ token"

definition actionCheckout :: "gw_env \<Rightarrow> string \<Rightarrow> gw_state \<Rightarrow> response \<times> gw_state" where
  "actionCheckout env meth st =
     (if meth \<noteq> ''POST'' then ((405, ErrorBody ''Method not allowed''), st)
      else
        (case e_create_session env of
           Inl err \<Rightarrow> ((500, ErrorBody ''Unable to create session''), st)
         | Inr url \<Rightarrow> ((200, TextBody url), st)))"

definition actionThanks :: "gw_env \<Rightarrow> 8 word list \<Rightarrow> int \<Rightarrow> string option \<Rightarrow> gw_state \<Rightarrow>
    response \<times> gw_state" where
  "actionThanks env rb now sid st =
     (if \<not> truthy sid then ((302, RedirectHome), st)
      else
        (case e_retrieve_session env of
           Inl err \<Rightarrow> ((302, RedirectHome), st)
         | Inr s \<Rightarrow>
             (if s = None \<or> cs_payment_status (the s) \<noteq> ''paid'' then ((302, RedirectHome), st)
              else
                (let token = toString_hex rb;
                     st1 = tokenSet token \<lparr>session_id = the sid, exp = now + 30 * 60 * 1000\<rparr> st;
                     dl = download_url (e_site env) token;
                     name = (if truthy (cs_name (the s)) then the (cs_name (the s)) else ''there'')
                 in ((200, ThanksPage name dl), st1)))))"

definition actionMakeToken :: "gw_env \<Rightarrow> 8 word list \<Rightarrow> int \<Rightarrow> request \<Rightarrow> gw_state \<Rightarrow>
    response \<times> gw_state" where
  "actionMakeToken env rb now req st =
     (if http_method req \<noteq> ''POST'' then ((405, ErrorBody ''Method not allowed''), st)
      else if \<not> truthy (body_session_id req) then ((400, ErrorBody ''missing session_id''), st)
      else
        (case e_retrieve_session env of
           Inl err \<Rightarrow> ((500, ErrorBody ''cannot create token''), st)
         | Inr s \<Rightarrow>
             (if s = None \<or> cs_payment_status (the s) \<noteq> ''paid''
              then ((403, ErrorBody ''not paid''), st)
              else
                (let token = toString_hex rb;
                     st1 = tokenSet token
                       \<lparr>session_id = the (body_session_id req), exp = now + 30 * 60 * 1000\<rparr> st
                 in ((200, TokenBody token), st1)))))"

definition actionDownload :: "gw_env \<Rightarrow> int \<Rightarrow> string option \<Rightarrow> gw_state \<Rightarrow> response \<times> gw_state" where
  "actionDownload env now tok st =
     (if \<not> truthy tok then ((400, ErrorBody ''missing token''), st)
      else
        (let (rec, st1) = tokenConsume now (the tok) st
         in if rec = None then ((403, ErrorBody ''invalid or expired token''), st1)
            else
              (case e_getSignedUrl env of
                 Inl err \<Rightarrow> ((500, ErrorBody ''download failed''), st1)
               | Inr url \<Rightarrow> ((302, TextBody url), st1))))"

record verify_req =
  v_method :: string
  v_licenseKey :: "string option"
  v_deviceId :: "string option"
  v_productId :: "string option"

definition valid :: "int \<Rightarrow> lic_obj \<Rightarrow> bool" where
  \<comment> \<open>the constant \<open>valid\<close> of \<open>actionVerify\<close>; \<open>Number(undefined)\<close> is \<open>NaN\<close>, which
      is neither \<open>=== 0\<close> nor \<open>>= now\<close>\<close>
  "valid now lic =
     ((case status lic of None \<Rightarrow> False | Some s \<Rightarrow> s \<in> GOOD_STATUSES) \<and>
      (case currentPeriodEnd lic of
         None \<Rightarrow> False
       | Some e \<Rightarrow> e = 0 \<or> now \<le> e + 5 * 60 * 1000))"

definition verified :: "int \<Rightarrow> lic_obj \<Rightarrow> response" where
  \<comment> \<open>the final \<open>send(res, 200, ...)\<close> of \<open>actionVerify\<close>; \<open>Number(x) || 0\<close> is \<open>x\<close> for a
      number and \<open>0\<close> for \<open>NaN\<close>\<close>
  "verified now lic =
     (200, VerifyBody (valid now lic) (status lic)
        (Some (case currentPeriodEnd lic of None \<Rightarrow> 0 | Some e \<Rightarrow> if e \<noteq> 0 then e else 0)))"

definition actionVerify :: "int \<Rightarrow> int \<Rightarrow> verify_req \<Rightarrow> gw_state \<Rightarrow> response \<times> gw_state" where
  \<comment> \<open>\<open>t\<close> is the clock reading stored in \<open>updatedAt\<close>, \<open>now\<close> the later one compared
      with the period end\<close>
  "actionVerify t now req st =
     (if v_method req \<noteq> ''POST'' then ((405, ErrorBody ''Method not allowed''), st)
      else if \<not> truthy (v_licenseKey req) \<or> \<not> truthy (v_deviceId req)
      then ((400, ErrorBody ''missing fields''), st)
      else
        (let lk = the (v_licenseKey req);
             dev = the (v_deviceId req);
             pid = (case v_productId req of None \<Rightarrow> PRODUCT_ID_DEFAULT | Some p \<Rightarrow> p)
         in case getLicenseByKey lk pid st of
              None \<Rightarrow> ((403, VerifyBody False (Some ''not_found'') None), st)
            | Some lic \<Rightarrow>
                (let bound = (if truthy (boundDevice lic) then the (boundDevice lic) else []);
                     licKey = license_key_of (interp (customerId lic)) pid
                 in if bound = [] then
                      (verified now lic,
                       kvHSet licKey (empty_obj\<lparr>boundDevice := Some dev, updatedAt := Some t\<rparr>) st)
                    else if bound \<noteq> dev then
                      ((403, VerifyBody False (Some ''device_limit'') None), st)
                    else (verified now lic, st))))"

subsection \<open>Webhook and dispatch\<close>

definition product_of :: "subscription \<Rightarrow> string" where
  \<comment> \<open>\<open>sub.items.data[0]?.price?.product || PRODUCT_ID_DEFAULT\<close>\<close>
  "product_of sub = (if truthy (sub_product sub) then the (sub_product sub) else PRODUCT_ID_DEFAULT)"

definition customer_or_id :: "string \<Rightarrow> string" where
  \<comment> \<open>\<open>obj.customer || obj.customer_id\<close>, as it appears inside the template literal:
      Stripe objects carry no \<open>customer_id\<close>\<close>
  "customer_or_id c = (if c \<noteq> [] then c else ''undefined'')"

definition handleStripeWebhook :: "gw_env \<Rightarrow> string \<Rightarrow> string \<Rightarrow> 8 word list \<Rightarrow> int \<Rightarrow> int \<Rightarrow>
    string + event \<Rightarrow> gw_state \<Rightarrow> (exn + response) \<times> string list \<times> gw_state" where
  \<comment> \<open>\<open>ev\<close> is the outcome of \<open>stripe.webhooks.constructEvent\<close>, \<open>t\<close> the clock
      reading stored in \<open>updatedAt\<close>, \<open>now\<close> the later one behind the token's \<open>exp\<close>;
      the result is the response or the exception that leaves the function, the
      \<open>console.error\<close> lines, and the stores\<close>
  "handleStripeWebhook env r1 r2 rb t now ev st =
     (case ev of
        Inl msg \<Rightarrow>
          (Inr (400, TextBody (''Webhook Error: '' @ msg)), [''Webhook signature error:''], st)
      | Inr (CheckoutSessionCompleted s) \<Rightarrow>
          (let pid = (if truthy (cs_metadata_productId s) then the (cs_metadata_productId s)
                      else PRODUCT_ID_DEFAULT);
               stat = (if cs_mode s = ''subscription'' then ''trialing'' else ''active'')
           in case (if truthy (cs_subscription s)
                    then (case e_retrieve_subscription env of
                            Inl err \<Rightarrow> Inl err
                          | Inr sub \<Rightarrow> Inr (sub_current_period_end sub * 1000))
                    else Inr 0) of
                Inl err \<Rightarrow> (Inl err, [], st)
              | Inr periodEnd \<Rightarrow>
                  (let (res, st1) = ensureLicense r1 r2 t
                         \<lparr>a_customerId = cs_customer s,
                          a_email = Some (if truthy (cs_email s) then the (cs_email s) else []),
                          a_productId = pid,
                          a_status = stat,
                          a_currentPeriodEnd = periodEnd\<rparr> st
                   in if e_resend env \<and> truthy (cs_email s) then
                        (let token = toString_hex rb;
                             st2 = tokenSet token
                               \<lparr>session_id = cs_id s, exp = now + 30 * 60 * 1000\<rparr> st1
                         in case e_send_email env of
                              Some err \<Rightarrow> (Inl err, [], st2)
                            | None \<Rightarrow> (Inr (200, ReceivedBody), [], st2))
                      else (Inr (200, ReceivedBody), [], st1)))
      | Inr (SubscriptionCreated sub) \<Rightarrow>
          (Inr (200, ReceivedBody), [],
           snd (ensureLicense r1 r2 t
             \<lparr>a_customerId = sub_customer sub, a_email = Some [], a_productId = product_of sub,
              a_status = sub_status sub,
              a_currentPeriodEnd = sub_current_period_end sub * 1000\<rparr> st))
      | Inr (SubscriptionUpdated sub) \<Rightarrow>
          (Inr (200, ReceivedBody), [],
           snd (ensureLicense r1 r2 t
             \<lparr>a_customerId = sub_customer sub, a_email = Some [], a_productId = product_of sub,
              a_status = sub_status sub,
              a_currentPeriodEnd = sub_current_period_end sub * 1000\<rparr> st))
      | Inr (SubscriptionDeleted sub) \<Rightarrow>
          (Inr (200, ReceivedBody), [],
           markCanceled t (customer_or_id (sub_customer sub)) (product_of sub) st)
      | Inr (InvoicePaymentFailed iv) \<Rightarrow>
          (case e_retrieve_subscription env of
             Inl err \<Rightarrow> (Inl err, [], st)
           | Inr sub \<Rightarrow>
               (Inr (200, ReceivedBody), [],
                markCanceled t (customer_or_id (inv_customer iv)) (product_of sub) st))
      | Inr OtherEvent \<Rightarrow> (Inr (200, ReceivedBody), [], st))"

record gw_request =
  g_method :: string
  g_stripe_signature :: "string option"
  g_signed :: "string + event"
  g_action :: "string option"
  g_query_session_id :: "string option"
  g_query_token :: "string option"
  g_body_session_id :: "string option"
  g_licenseKey :: "string option"
  g_deviceId :: "string option"
  g_productId :: "string option"

record draws =
  d_r1 :: string
  d_r2 :: string
  d_rb :: "8 word list"
  d_t :: int
  d_now :: int

definition gateway_handler :: "gw_env \<Rightarrow> draws \<Rightarrow> gw_request \<Rightarrow> gw_state \<Rightarrow>
    (exn + response) \<times> string list \<times> gw_state" where
  \<comment> \<open>the default export of the gateway: the webhook is returned before the \<open>try\<close>
      block, the actions answer every failure themselves\<close>
  "gateway_handler env d req st =
     (if truthy (g_stripe_signature req)
      then handleStripeWebhook env (d_r1 d) (d_r2 d) (d_rb d) (d_t d) (d_now d) (g_signed req) st
      else
        (let (resp, st1) =
           (if g_action req = Some ''checkout'' then actionCheckout env (g_method req) st
            else if g_action req = Some ''thanks''
              then actionThanks env (d_rb d) (d_now d) (g_query_session_id req) st
            else if g_action req = Some ''token''
              then actionMakeToken env (d_rb d) (d_now d)
                     \<lparr>http_method = g_method req, body_session_id = g_body_session_id req\<rparr> st
            else if g_action req = Some ''download''
              then actionDownload env (d_now d) (g_query_token req) st
            else if g_action req = Some ''verify''
              then actionVerify (d_t d) (d_now d)
                     \<lparr>v_method = g_method req, v_licenseKey = g_licenseKey req,
                      v_deviceId = g_deviceId req, v_productId = g_productId req\<rparr> st
            else ((200, TextBody ''ok''), st))
         in (Inr resp, [], st1)))"

section \<open>\<open>/api/stripe-webhook.js\<close>, the version that keeps licenses in KV\<close>

text \<open>
  This file talks to the KV client directly: \<open>kv.hgetall\<close> reads the hash stored
  under a key (\<open>null\<close> when there is none), \<open>kv.hset\<close> merges fields into it.
\<close>

type_synonym kv_store = "string \<rightharpoonup> lic_obj"

definition ensureLicense_webhook :: "string \<Rightarrow> string \<Rightarrow> int \<Rightarrow> ensure_args \<Rightarrow> kv_store \<Rightarrow>
    (bool \<times> string option) \<times> kv_store" where
  "ensureLicense_webhook r1 r2 now a kv =
     (let lk = map toUpperCase_char (''LIC-'' @ r1 @ ''-'' @ r2);
          key = license_key_of (a_customerId a) (a_productId a);
          existing = kv key
      in if existing = None then
           ((True, Some lk),
            kv(key \<mapsto> spread empty_obj
              \<lparr>licenseKey = Some lk,
               customerId = Some (a_customerId a),
               productId = Some (a_productId a),
               email = Some (if truthy (a_email a) then the (a_email a) else []),
               status = Some (a_status a),
               currentPeriodEnd =
                 Some (if a_currentPeriodEnd a \<noteq> 0 then a_currentPeriodEnd a else 0),
               boundDevice = Some [],
               deviceLimit = Some 1,
               updatedAt = Some now\<rparr>))
         else
           ((False, licenseKey (the existing)),
            kv(key \<mapsto> spread (the existing)
              (empty_obj\<lparr>status := Some (a_status a),
                 currentPeriodEnd :=
                   Some (if a_currentPeriodEnd a \<noteq> 0 then a_currentPeriodEnd a
                         else (case currentPeriodEnd (the existing) of
                                 None \<Rightarrow> 0
                               | Some e \<Rightarrow> if e \<noteq> 0 then e else 0)),
                 updatedAt := Some now\<rparr>))))"

definition handler_license_webhook :: "gw_env \<Rightarrow> string \<Rightarrow> string \<Rightarrow> int \<Rightarrow> string \<Rightarrow>
    string + event \<Rightarrow> kv_store \<Rightarrow> (exn + response) \<times> string list \<times> kv_store" where
  "handler_license_webhook env r1 r2 now meth ev kv =
     (if meth \<noteq> ''POST'' then (Inr (405, TextBody ''Method Not Allowed''), [], kv)
      else
        (case ev of
           Inl msg \<Rightarrow>
             (Inr (400, TextBody (''Webhook Error: '' @ msg)),
              [''Webhook signature check failed:''], kv)
         | Inr (CheckoutSessionCompleted s) \<Rightarrow>
             (let pid = (if truthy (cs_metadata_productId s) then the (cs_metadata_productId s)
                         else ''truetrend-ai'');
                  stat = (if cs_mode s = ''subscription'' then ''trialing'' else ''active'')
              in case (if truthy (cs_subscription s)
                       then (case e_retrieve_subscription env of
                               Inl err \<Rightarrow> Inl err
                             | Inr sub \<Rightarrow> Inr (sub_current_period_end sub * 1000))
                       else Inr 0) of
                   Inl err \<Rightarrow> (Inl err, [], kv)
                 | Inr periodEnd \<Rightarrow>
                     (let (res, kv1) = ensureLicense_webhook r1 r2 now
                            \<lparr>a_customerId = cs_customer s, a_email = cs_email s,
                             a_productId = pid, a_status = stat,
                             a_currentPeriodEnd = periodEnd\<rparr> kv
                      in if fst res \<and> truthy (cs_email s) then
                           (case e_send_email env of
                              Some err \<Rightarrow> (Inl err, [], kv1)
                            | None \<Rightarrow> (Inr (200, ReceivedBody), [], kv1))
                         else (Inr (200, ReceivedBody), [], kv1)))
         | Inr (SubscriptionCreated sub) \<Rightarrow>
             (Inr (200, ReceivedBody), [],
              snd (ensureLicense_webhook r1 r2 now
                \<lparr>a_customerId = sub_customer sub, a_email = Some [],
                 a_productId = (if truthy (sub_product sub) then the (sub_product sub)
                                else ''truetrend-ai''),
                 a_status = sub_status sub,
                 a_currentPeriodEnd = sub_current_period_end sub * 1000\<rparr> kv))
         | Inr (SubscriptionUpdated sub) \<Rightarrow>
             (Inr (200, ReceivedBody), [],
              snd (ensureLicense_webhook r1 r2 now
                \<lparr>a_customerId = sub_customer sub, a_email = Some [],
                 a_productId = (if truthy (sub_product sub) then the (sub_product sub)
                                else ''truetrend-ai''),
                 a_status = sub_status sub,
                 a_currentPeriodEnd = sub_current_period_end sub * 1000\<rparr> kv))
         | Inr (SubscriptionDeleted sub) \<Rightarrow>
             (let key = license_key_of (customer_or_id (sub_customer sub))
                          (if truthy (sub_product sub) then the (sub_product sub)
                           else ''truetrend-ai'')
              in (Inr (200, ReceivedBody), [],
                  (if kv key \<noteq> None
                   then kv(key \<mapsto> spread (the (kv key))
                          (empty_obj\<lparr>status := Some ''canceled'', updatedAt := Some now\<rparr>))
                   else kv)))
         | Inr (InvoicePaymentFailed iv) \<Rightarrow>
             (case e_retrieve_subscription env of
                Inl err \<Rightarrow> (Inl err, [], kv)
              | Inr sub \<Rightarrow>
                  (let key = license_key_of (customer_or_id (inv_customer iv))
                               (if truthy (sub_product sub) then the (sub_product sub)
                                else ''truetrend-ai'')
                   in (Inr (200, ReceivedBody), [],
                       (if kv key \<noteq> None
                        then kv(key \<mapsto> spread (the (kv key))
                               (empty_obj\<lparr>status := Some ''canceled'', updatedAt := Some now\<rparr>))
                        else kv))))
         | Inr OtherEvent \<Rightarrow> (Inr (200, ReceivedBody), [], kv)))"

section \<open>\<open>/api/stripe-webhook.js\<close>, the version that mails a download link\<close>

definition handler_email_webhook :: "exn + string \<Rightarrow> exn option \<Rightarrow> string \<Rightarrow> string + event \<Rightarrow>
    (exn + response) \<times> string list" where
  \<comment> \<open>\<open>fetched\<close> is the token read from the answer of \<open>/api/make-download-token\<close> (or the
      exception of \<open>fetch\<close> or \<open>resp.json()\<close>), \<open>sent\<close> what \<open>resend.emails.send\<close>
      does\<close>
  "handler_email_webhook fetched sent meth ev =
     (if meth \<noteq> ''POST'' then (Inr (405, TextBody ''Method Not Allowed''), [])
      else
        (case ev of
           Inl msg \<Rightarrow>
             (Inr (400, TextBody (''Webhook Error: '' @ msg)),
              [''Webhook signature check failed:''])
         | Inr (CheckoutSessionCompleted s) \<Rightarrow>
             (case fetched of
                Inl err \<Rightarrow> (Inr (200, ReceivedBody), [''email/send error:''])
              | Inr token \<Rightarrow>
                  (if truthy (cs_email s) then
                     (case sent of
                        Some err \<Rightarrow> (Inr (200, ReceivedBody), [''email/send error:''])
                      | None \<Rightarrow> (Inr (200, ReceivedBody), []))
                   else (Inr (200, ReceivedBody), [])))
         | Inr other \<Rightarrow> (Inr (200, ReceivedBody), [])))"

section \<open>Histories of gateway operations\<close>

datatype op =
    Ensure string string int ensure_args
  | Verify int int verify_req
  | Cancel int string string
  | Issue string token_rec
  | Consume int string

fun step :: "op \<Rightarrow> gw_state \<Rightarrow> gw_state" where
  "step (Ensure r1 r2 now a) st = snd (ensureLicense r1 r2 now a st)"
| "step (Verify t now req) st = snd (actionVerify t now req st)"
| "step (Cancel now cid pid) st = markCanceled now cid pid st"
| "step (Issue token rec) st = tokenSet token rec st"
| "step (Consume now token) st = snd (tokenConsume now token st)"

fun run :: "op list \<Rightarrow> gw_state \<Rightarrow> gw_state" where
  "run [] st = st"
| "run (x # xs) st = run xs (step x st)"

fun ensure_calls :: "(string \<times> string \<times> int \<times> ensure_args) list \<Rightarrow> gw_state \<Rightarrow> gw_state" where
  "ensure_calls [] st = st"
| "ensure_calls ((r1, r2, now, a) # cs) st = ensure_calls cs (snd (ensureLicense r1 r2 now a st))"

text \<open>
  Customer ids come from Stripe (\<open>cus_...\<close>) and contain no colon, so that the key
  \<open>license:${customerId}:${productId}\<close> determines both of its parts.
\<close>

definition no_colon :: "string \<Rightarrow> bool" where
  "no_colon s = (CHR '':'' \<notin> set s)"

fun op_ids_ok :: "op \<Rightarrow> bool" where
  "op_ids_ok (Ensure r1 r2 now a) = no_colon (a_customerId a)"
| "op_ids_ok x = True"

definition ids_ok :: "op list \<Rightarrow> bool" where
  "ids_ok xs = list_all op_ids_ok xs"

text \<open>
  License keys are random and not checked for collisions; \<open>fresh_run\<close> says that no
  creation in the history draws a key that the index already holds.
\<close>

fun fresh_op :: "op \<Rightarrow> gw_state \<Rightarrow> bool" where
  "fresh_op (Ensure r1 r2 now a) st =
     (fst (fst (ensureLicense r1 r2 now a st)) \<longrightarrow>
        kvIndexGet (index_key_of (randomKey ''LIC'' r1 r2)) st = None)"
| "fresh_op x st = True"

fun fresh_run :: "op list \<Rightarrow> gw_state \<Rightarrow> bool" where
  "fresh_run [] st = True"
| "fresh_run (x # xs) st = (fresh_op x st \<and> fresh_run xs (step x st))"

text \<open>The \<open>created\<close> flags returned to the \<open>ensureLicense\<close> calls for one customer and product.\<close>

fun created_flags :: "string \<Rightarrow> string \<Rightarrow> op list \<Rightarrow> gw_state \<Rightarrow> bool list" where
  "created_flags cid pid [] st = []"
| "created_flags cid pid (Ensure r1 r2 now a # xs) st =
     (if a_customerId a = cid \<and> a_productId a = pid
      then fst (fst (ensureLicense r1 r2 now a st)) # created_flags cid pid xs (step (Ensure r1 r2 now a) st)
      else created_flags cid pid xs (step (Ensure r1 r2 now a) st))"
| "created_flags cid pid (x # xs) st = created_flags cid pid xs (step x st)"

text \<open>
  The shape of the license store that every history keeps: a stored object has all its
  properties, a non-empty license key, a customer id without colon, and sits under the
  key made of its own customer and product; customers in the index have no colon.
\<close>

definition lic_wf :: "gw_state \<Rightarrow> bool" where
  "lic_wf st =
     ((\<forall>k r. MEM_LICENSES st k = Some r \<longrightarrow>
         truthy (licenseKey r) \<and>
         (\<exists>c p. customerId r = Some c \<and> productId r = Some p \<and> no_colon c \<and>
                k = license_key_of c p) \<and>
         email r \<noteq> None \<and> status r \<noteq> None \<and> currentPeriodEnd r \<noteq> None \<and>
         boundDevice r \<noteq> None \<and> deviceLimit r \<noteq> None \<and> updatedAt r \<noteq> None) \<and>
      (\<forall>ik e. MEM_INDEX st ik = Some e \<longrightarrow> no_colon (idx_customerId e)))"

text \<open>Index and records agree on which license keys exist.\<close>

definition index_inv :: "gw_state \<Rightarrow> bool" where
  "index_inv st =
     ((\<forall>k r. MEM_LICENSES st k = Some r \<longrightarrow> truthy (licenseKey r)) \<and>
      (\<forall>ik e. MEM_INDEX st ik = Some e \<longrightarrow>
         (\<exists>lk k r. ik = index_key_of lk \<and> MEM_LICENSES st k = Some r \<and> licenseKey r = Some lk)) \<and>
      (\<forall>k r lk. MEM_LICENSES st k = Some r \<and> licenseKey r = Some lk \<longrightarrow>
         MEM_INDEX st (index_key_of lk) \<noteq> None))"

text \<open>
  How a stored license may change from one state of a history to a later one: its
  identity stays, and a device, once bound, stays.
\<close>

definition evolves :: "lic_obj \<Rightarrow> lic_obj \<Rightarrow> bool" where
  "evolves r r' =
     (licenseKey r' = licenseKey r \<and> customerId r' = customerId r \<and>
      productId r' = productId r \<and> email r' = email r \<and> deviceLimit r' = deviceLimit r \<and>
      (truthy (boundDevice r) \<longrightarrow> boundDevice r' = boundDevice r))"

text \<open>The customer ids a gateway request brings into the license store.\<close>

definition request_ids_ok :: "gw_request \<Rightarrow> bool" where
  "request_ids_ok req =
     (case g_signed req of
        Inr (CheckoutSessionCompleted s) \<Rightarrow> no_colon (cs_customer s)
      | Inr (SubscriptionCreated sub) \<Rightarrow> no_colon (sub_customer sub)
      | Inr (SubscriptionUpdated sub) \<Rightarrow> no_colon (sub_customer sub)
      | _ \<Rightarrow> True)"

section \<open>Example values\<close>

text \<open>Shorthands for the concrete requests and objects of the examples below.\<close>

abbreviation ex_args :: "string \<Rightarrow> string \<Rightarrow> string \<Rightarrow> int \<Rightarrow> ensure_args" where
  "ex_args cid pid stat pe \<equiv>
     \<lparr>a_customerId = cid, a_email = Some ''a@b.c'', a_productId = pid, a_status = stat,
      a_currentPeriodEnd = pe\<rparr>"

abbreviation ex_verify :: "string \<Rightarrow> string \<Rightarrow> string option \<Rightarrow> verify_req" where
  "ex_verify lk dev po \<equiv>
     \<lparr>v_method = ''POST'', v_licenseKey = Some lk, v_deviceId = Some dev, v_productId = po\<rparr>"

abbreviation ex_lic :: "string \<Rightarrow> string \<Rightarrow> string \<Rightarrow> string \<Rightarrow> int \<Rightarrow> string \<Rightarrow> int \<Rightarrow> lic_obj" where
  "ex_lic lk cid pid stat pe dev upd \<equiv>
     \<lparr>licenseKey = Some lk, customerId = Some cid, productId = Some pid,
      email = Some ''a@b.c'', status = Some stat, currentPeriodEnd = Some pe,
      boundDevice = Some dev, deviceLimit = Some 1, updatedAt = Some upd\<rparr>"

abbreviation ex_session :: "string \<Rightarrow> string \<Rightarrow> checkout_session" where
  "ex_session stat pstat \<equiv>
     \<lparr>cs_id = ''cs_1'', cs_status = stat, cs_payment_status = pstat, cs_customer = ''cus_1'',
      cs_mode = ''payment'', cs_subscription = None, cs_metadata_productId = None,
      cs_email = Some ''a@b.c'', cs_name = None\<rparr>"

abbreviation ex_env :: "exn + checkout_session option \<Rightarrow> exn option \<Rightarrow> gw_env" where
  "ex_env sess sent \<equiv>
     \<lparr>e_create_session = Inl StripeError, e_retrieve_session = sess,
      e_retrieve_subscription = Inl StripeError, e_resend = True, e_send_email = sent,
      e_getSignedUrl = Inl StripeError, e_site = ''https://example.test''\<rparr>"

abbreviation ex_token_req :: request where
  "ex_token_req \<equiv> \<lparr>http_method = ''POST'', body_session_id = Some ''cs_1''\<rparr>"

abbreviation ex_webhook_req :: "event \<Rightarrow> gw_request" where
  "ex_webhook_req ev \<equiv>
     \<lparr>g_method = ''POST'', g_stripe_signature = Some ''t=1,v1=5257'', g_signed = Inr ev,
      g_action = None, g_query_session_id = None, g_query_token = None,
      g_body_session_id = None, g_licenseKey = None, g_deviceId = None, g_productId = None\<rparr>"

abbreviation ex_draws :: draws where
  "ex_draws \<equiv> \<lparr>d_r1 = ''aaaa'', d_r2 = ''bbbb'', d_rb = [0x0A, 0xFF], d_t = 1000, d_now = 1000\<rparr>"

section \<open>Properties\<close>

subsection \<open>Token consumption\<close>

lemma consumeToken_deletes: "snd (consumeToken now t m) t = None"
  by (simp add: consumeToken_def split: option.splits)

lemma consumeToken_keeps_none: "m k = None \<Longrightarrow> snd (consumeToken now t m) k = None"
  by (simp add: consumeToken_def split: option.splits)

lemma consumeToken_absent: "m t = None \<Longrightarrow> fst (consumeToken now t m) = None"
  by (simp add: consumeToken_def)

lemma consumeToken_result:
  "fst (consumeToken now t m) =
     (case m t of None \<Rightarrow> None | Some x \<Rightarrow> if now > exp x then None else Some x)"
  by (simp add: consumeToken_def split: option.splits)

lemma consumeToken_store: "snd (consumeToken now t m) = m(t := None)"
  by (auto simp: consumeToken_def split: option.splits)

lemma consume_calls_keeps_none: "m k = None \<Longrightarrow> snd (consume_calls cs m) k = None"
proof (induction cs arbitrary: m)
  case Nil
  then show ?case by simp
next
  case (Cons c cs)
  have "snd (consumeToken (fst c) (snd c) m) k = None"
    using Cons.prems by (rule consumeToken_keeps_none)
  then show ?case
    using Cons.IH [of "snd (consumeToken (fst c) (snd c) m)"]
    by (simp add: split_beta Let_def)
qed

lemma consume_calls_absent:
  "m t = None \<Longrightarrow> [x \<leftarrow> zip cs (fst (consume_calls cs m)). snd (fst x) = t \<and> snd x \<noteq> None] = []"
proof (induction cs arbitrary: m)
  case Nil
  then show ?case by simp
next
  case (Cons c cs)
  have n: "snd (consumeToken (fst c) (snd c) m) t = None"
    using Cons.prems by (rule consumeToken_keeps_none)
  have "snd c = t \<Longrightarrow> fst (consumeToken (fst c) (snd c) m) = None"
    using Cons.prems by (simp add: consumeToken_absent)
  with n Cons.IH [of "snd (consumeToken (fst c) (snd c) m)"] show ?case
    by (simp add: split_beta Let_def)
qed

lemma consume_calls_once:
  "length [x \<leftarrow> zip cs (fst (consume_calls cs m)). snd (fst x) = t \<and> snd x \<noteq> None] \<le> 1"
proof (induction cs arbitrary: m)
  case Nil
  then show ?case by simp
next
  case (Cons c cs)
  show ?case
  proof (cases "snd c = t")
    case True
    have "snd (consumeToken (fst c) (snd c) m) t = None"
      using True consumeToken_deletes by simp
    then have "[x \<leftarrow> zip cs (fst (consume_calls cs (snd (consumeToken (fst c) (snd c) m)))).
                 snd (fst x) = t \<and> snd x \<noteq> None] = []"
      by (rule consume_calls_absent)
    with True show ?thesis
      by (simp add: split_beta Let_def del: not_None_eq)
  next
    case False
    with Cons.IH show ?thesis
      by (simp add: split_beta Let_def)
  qed
qed

text \<open>The gateway's \<open>tokenConsume\<close> is \<open>consumeToken\<close> on the map \<open>MEM_TOKENS\<close>.\<close>

lemma tokenConsume_eq:
  "tokenConsume now t st =
     (fst (consumeToken now t (MEM_TOKENS st)),
      st\<lparr>MEM_TOKENS := snd (consumeToken now t (MEM_TOKENS st))\<rparr>)"
  by (simp add: tokenConsume_def consumeToken_def split: option.splits)

lemma tokenConsume_calls_eq:
  "tokenConsume_calls cs st =
     (fst (consume_calls cs (MEM_TOKENS st)),
      st\<lparr>MEM_TOKENS := snd (consume_calls cs (MEM_TOKENS st))\<rparr>)"
proof (induction cs arbitrary: st)
  case Nil
  then show ?case by simp
next
  case (Cons c cs)
  show ?case
    by (simp add: Cons.IH tokenConsume_eq split_beta Let_def)
qed

text \<open>
  Claim C2. In every sequence of consume calls on one store, with any tokens and clock
  readings, at most one call for a token \<open>t\<close> returns a record. A call returns the stored
  record exactly when there is one and \<open>now > exp\<close> is false; in every case the store
  afterwards holds nothing for \<open>t\<close> (so an expired record is removed too), and whatever
  consume calls follow, a later consume of \<open>t\<close> returns not-found. This holds for
  \<open>consumeToken\<close> of \<open>/api/make-download-token.js\<close> and for \<open>tokenConsume\<close> of the
  gateway.
\<close>

theorem consume_at_most_once:
  "length [x \<leftarrow> zip cs (fst (consume_calls cs m)). snd (fst x) = t \<and> snd x \<noteq> None] \<le> 1
   \<and> length [x \<leftarrow> zip cs (fst (tokenConsume_calls cs st)). snd (fst x) = t \<and> snd x \<noteq> None] \<le> 1
   \<and> fst (consumeToken now t m) =
       (case m t of None \<Rightarrow> None | Some x \<Rightarrow> if now > exp x then None else Some x)
   \<and> snd (consumeToken now t m) = m(t := None)
   \<and> fst (consumeToken now' t (snd (consume_calls cs (snd (consumeToken now t m))))) = None
   \<and> fst (tokenConsume now t st) =
       (case MEM_TOKENS st t of None \<Rightarrow> None | Some x \<Rightarrow> if now > exp x then None else Some x)
   \<and> snd (tokenConsume now t st) = st\<lparr>MEM_TOKENS := (MEM_TOKENS st)(t := None)\<rparr>
   \<and> fst (tokenConsume now' t (snd (tokenConsume_calls cs (snd (tokenConsume now t st))))) = None"
proof -
  have a: "length [x \<leftarrow> zip cs (fst (consume_calls cs m)). snd (fst x) = t \<and> snd x \<noteq> None] \<le> 1"
    by (rule consume_calls_once)
  have b: "length [x \<leftarrow> zip cs (fst (tokenConsume_calls cs st)). snd (fst x) = t \<and> snd x \<noteq> None] \<le> 1"
    using consume_calls_once [of t cs "MEM_TOKENS st"] by (simp only: tokenConsume_calls_eq fst_conv)
  have later: "fst (consumeToken now' t (snd (consume_calls cs (snd (consumeToken now t mm))))) = None" for mm
    by (intro consumeToken_absent consume_calls_keeps_none consumeToken_deletes)
  have d: "fst (tokenConsume now' t (snd (tokenConsume_calls cs (snd (tokenConsume now t st))))) = None"
    using later [of "MEM_TOKENS st"] by (simp add: tokenConsume_eq tokenConsume_calls_eq)
  have e: "fst (tokenConsume now t st) =
       (case MEM_TOKENS st t of None \<Rightarrow> None | Some x \<Rightarrow> if now > exp x then None else Some x)"
    by (simp add: tokenConsume_eq consumeToken_result)
  have f: "snd (tokenConsume now t st) = st\<lparr>MEM_TOKENS := (MEM_TOKENS st)(t := None)\<rparr>"
    by (simp add: tokenConsume_eq consumeToken_store)
  from a b later [of m] d e f consumeToken_result [of now t m] consumeToken_store [of now t m]
  show ?thesis by blast
qed

subsection \<open>The license store along a history\<close>

lemma takeWhile_colon:
  "CHR '':'' \<notin> set c \<Longrightarrow> takeWhile (\<lambda>x. x \<noteq> CHR '':'') (c @ CHR '':'' # p) = c"
  by (induction c) auto

lemma license_key_inj:
  assumes "no_colon c" "no_colon c'" "license_key_of c p = license_key_of c' p'"
  shows "c = c' \<and> p = p'"
proof -
  from assms(3) have eq: "c @ CHR '':'' # p = c' @ CHR '':'' # p'"
    by (simp add: license_key_of_def)
  have "takeWhile (\<lambda>x. x \<noteq> CHR '':'') (c @ CHR '':'' # p) = c"
    using assms(1) by (simp add: no_colon_def takeWhile_colon)
  moreover have "takeWhile (\<lambda>x. x \<noteq> CHR '':'') (c' @ CHR '':'' # p') = c'"
    using assms(2) by (simp add: no_colon_def takeWhile_colon)
  ultimately have "c = c'" using eq by simp
  with eq show ?thesis by simp
qed

lemma randomKey_truthy: "truthy (Some (randomKey ''LIC'' r1 r2))"
  by (simp add: truthy_def randomKey_def)

lemma lic_wf_init: "lic_wf init_state"
  by (simp add: lic_wf_def init_state_def)

lemma kvHSet_licenses:
  "MEM_LICENSES (kvHSet key obj st) =
     (MEM_LICENSES st)(key \<mapsto> spread (case MEM_LICENSES st key of None \<Rightarrow> empty_obj | Some v \<Rightarrow> v) obj)"
  by (simp add: kvHSet_def Let_def)

lemma kvHSet_other [simp]:
  "MEM_INDEX (kvHSet key obj st) = MEM_INDEX st"
  "MEM_TOKENS (kvHSet key obj st) = MEM_TOKENS st"
  by (simp_all add: kvHSet_def Let_def)

text \<open>What \<open>ensureLicense\<close> does, branch by branch.\<close>

lemma ensureLicense_on_absent:
  assumes "MEM_LICENSES st (license_key_of (a_customerId a) (a_productId a)) = None"
  shows "ensureLicense r1 r2 now a st =
     ((True, randomKey ''LIC'' r1 r2),
      st\<lparr>MEM_LICENSES := (MEM_LICENSES st)(license_key_of (a_customerId a) (a_productId a) \<mapsto>
            \<lparr>licenseKey = Some (randomKey ''LIC'' r1 r2),
             customerId = Some (a_customerId a),
             productId = Some (a_productId a),
             email = Some (if truthy (a_email a) then the (a_email a) else []),
             status = Some (a_status a),
             currentPeriodEnd = Some (a_currentPeriodEnd a),
             boundDevice = Some [],
             deviceLimit = Some 1,
             updatedAt = Some now\<rparr>),
         MEM_INDEX := (MEM_INDEX st)(index_key_of (randomKey ''LIC'' r1 r2) \<mapsto>
            \<lparr>idx_customerId = a_customerId a, idx_productId = a_productId a\<rparr>)\<rparr>)"
  using assms
  by (simp add: ensureLicense_def kvHGetAll_def kvHSet_def kvIndexSet_def Let_def spread_def
      over_def empty_obj_def)

lemma ensureLicense_on_existing:
  assumes "MEM_LICENSES st (license_key_of (a_customerId a) (a_productId a)) = Some old"
    and "truthy (licenseKey old)"
  shows "ensureLicense r1 r2 now a st =
     ((False, the (licenseKey old)),
      st\<lparr>MEM_LICENSES := (MEM_LICENSES st)(license_key_of (a_customerId a) (a_productId a) \<mapsto>
            old\<lparr>status := Some (a_status a),
                currentPeriodEnd :=
                  Some (if a_currentPeriodEnd a \<noteq> 0 then a_currentPeriodEnd a
                        else (case currentPeriodEnd old of None \<Rightarrow> 0 | Some e \<Rightarrow> e)),
                updatedAt := Some now\<rparr>)\<rparr>)"
  using assms
  by (cases old)
     (auto simp add: ensureLicense_def kvHGetAll_def kvHSet_def Let_def spread_def
      over_def empty_obj_def split: option.splits)


lemma spread_bind:
  "spread r (empty_obj\<lparr>boundDevice := Some d, updatedAt := Some t\<rparr>) =
     r\<lparr>boundDevice := Some d, updatedAt := Some t\<rparr>"
  by (cases r) (simp add: spread_def over_def empty_obj_def)

lemma spread_cancel:
  "spread r (empty_obj\<lparr>status := Some s, updatedAt := Some t\<rparr>) =
     r\<lparr>status := Some s, updatedAt := Some t\<rparr>"
  by (cases r) (simp add: spread_def over_def empty_obj_def)

lemma evolves_refl: "evolves r r"
  by (simp add: evolves_def)

lemma evolves_trans: "evolves r r' \<Longrightarrow> evolves r' r'' \<Longrightarrow> evolves r r''"
  by (auto simp: evolves_def)

lemma lic_wfD:
  assumes "lic_wf st" "MEM_LICENSES st k = Some r"
  shows "truthy (licenseKey r)"
    and "\<exists>c p. customerId r = Some c \<and> productId r = Some p \<and> no_colon c \<and> k = license_key_of c p"
    and "email r \<noteq> None" "status r \<noteq> None" "currentPeriodEnd r \<noteq> None"
    and "boundDevice r \<noteq> None" "deviceLimit r \<noteq> None" "updatedAt r \<noteq> None"
  using assms unfolding lic_wf_def by blast+

lemma lic_wf_indexD: "lic_wf st \<Longrightarrow> MEM_INDEX st ik = Some e \<Longrightarrow> no_colon (idx_customerId e)"
  unfolding lic_wf_def by blast

lemma getLicenseByKey_wf:
  assumes wf: "lic_wf st" and g: "getLicenseByKey lk pid st = Some lic"
  shows "\<exists>e. MEM_INDEX st (index_key_of lk) = Some e \<and>
             MEM_LICENSES st (license_key_of (idx_customerId e) pid) = Some lic \<and>
             customerId lic = Some (idx_customerId e) \<and> productId lic = Some pid"
proof -
  from g obtain e where e: "MEM_INDEX st (index_key_of lk) = Some e"
    and l: "MEM_LICENSES st (license_key_of (idx_customerId e) pid) = Some lic"
    by (auto simp: getLicenseByKey_def kvIndexGet_def kvHGetAll_def split: option.splits)
  from lic_wfD(2) [OF wf l] obtain c p where cp: "customerId lic = Some c" "productId lic = Some p"
    "no_colon c" "license_key_of (idx_customerId e) pid = license_key_of c p"
    by blast
  from lic_wf_indexD [OF wf e] cp(3,4) have "idx_customerId e = c \<and> pid = p"
    by (intro license_key_inj) auto
  with e l cp show ?thesis by auto
qed

text \<open>What \<open>actionVerify\<close> does to the stores of a well-formed state.\<close>

lemma actionVerify_state:
  assumes wf: "lic_wf st"
  shows "snd (actionVerify t now req st) = st \<or>
     (\<exists>k r. MEM_LICENSES st k = Some r \<and> boundDevice r = Some [] \<and>
        getLicenseByKey (the (v_licenseKey req))
          (case v_productId req of None \<Rightarrow> PRODUCT_ID_DEFAULT | Some p \<Rightarrow> p) st = Some r \<and>
        snd (actionVerify t now req st) =
          st\<lparr>MEM_LICENSES := (MEM_LICENSES st)(k \<mapsto>
               r\<lparr>boundDevice := Some (the (v_deviceId req)), updatedAt := Some t\<rparr>)\<rparr>)"
proof -
  let ?pid = "case v_productId req of None \<Rightarrow> PRODUCT_ID_DEFAULT | Some p \<Rightarrow> p"
  let ?lk = "the (v_licenseKey req)"
  show ?thesis
  proof (cases "getLicenseByKey ?lk ?pid st")
    case None
    then show ?thesis by (simp add: actionVerify_def Let_def)
  next
    case (Some lic)
    from getLicenseByKey_wf [OF wf Some] obtain e where
      e: "MEM_INDEX st (index_key_of ?lk) = Some e"
      and l: "MEM_LICENSES st (license_key_of (idx_customerId e) ?pid) = Some lic"
      and c: "customerId lic = Some (idx_customerId e)"
      by blast
    from lic_wfD(6) [OF wf l] obtain b where b: "boundDevice lic = Some b" by blast
    show ?thesis
    proof (cases "b = []")
      case False
      with b Some show ?thesis
        by (simp add: actionVerify_def Let_def truthy_def)
    next
      case True
      have "kvHSet (license_key_of (idx_customerId e) ?pid)
              (empty_obj\<lparr>boundDevice := Some (the (v_deviceId req)), updatedAt := Some t\<rparr>) st =
            st\<lparr>MEM_LICENSES := (MEM_LICENSES st)(license_key_of (idx_customerId e) ?pid \<mapsto>
               lic\<lparr>boundDevice := Some (the (v_deviceId req)), updatedAt := Some t\<rparr>)\<rparr>"
        using l by (simp add: kvHSet_def Let_def spread_bind)
      with True b Some c l show ?thesis
        by (auto simp add: actionVerify_def Let_def truthy_def interp_def)
    qed
  qed
qed

lemma markCanceled_state:
  "markCanceled now cid pid st = st \<or>
     (\<exists>r. MEM_LICENSES st (license_key_of cid pid) = Some r \<and>
        markCanceled now cid pid st =
          st\<lparr>MEM_LICENSES := (MEM_LICENSES st)(license_key_of cid pid \<mapsto>
               r\<lparr>status := Some ''canceled'', updatedAt := Some now\<rparr>)\<rparr>)"
  by (auto simp add: markCanceled_def kvHGetAll_def kvHSet_def Let_def spread_cancel)


lemma ensureLicense_wf:
  assumes wf: "lic_wf st" and nc: "no_colon (a_customerId a)"
  shows "lic_wf (snd (ensureLicense r1 r2 now a st))"
proof (cases "MEM_LICENSES st (license_key_of (a_customerId a) (a_productId a))")
  case None
  show ?thesis
    unfolding ensureLicense_on_absent [OF None]
    using wf nc randomKey_truthy [of r1 r2]
    by (auto simp add: lic_wf_def)
next
  case (Some old)
  have t: "truthy (licenseKey old)" by (rule lic_wfD(1) [OF wf Some])
  have "lic_wf (st\<lparr>MEM_LICENSES := (MEM_LICENSES st)(license_key_of (a_customerId a) (a_productId a) \<mapsto>
            old\<lparr>status := Some (a_status a),
                currentPeriodEnd :=
                  Some (if a_currentPeriodEnd a \<noteq> 0 then a_currentPeriodEnd a
                        else (case currentPeriodEnd old of None \<Rightarrow> 0 | Some e \<Rightarrow> e)),
                updatedAt := Some now\<rparr>)\<rparr>)"
    using wf Some unfolding lic_wf_def by (simp (no_asm_use)) blast
  then show ?thesis
    by (simp add: ensureLicense_on_existing [OF Some t])
qed

lemma actionVerify_wf:
  assumes wf: "lic_wf st"
  shows "lic_wf (snd (actionVerify t now req st))"
proof -
  from actionVerify_state [OF wf, of t now req] show ?thesis
  proof
    assume "snd (actionVerify t now req st) = st"
    with wf show ?thesis by simp
  next
    assume "\<exists>k r. MEM_LICENSES st k = Some r \<and> boundDevice r = Some [] \<and>
        getLicenseByKey (the (v_licenseKey req))
          (case v_productId req of None \<Rightarrow> PRODUCT_ID_DEFAULT | Some p \<Rightarrow> p) st = Some r \<and>
        snd (actionVerify t now req st) =
          st\<lparr>MEM_LICENSES := (MEM_LICENSES st)(k \<mapsto>
               r\<lparr>boundDevice := Some (the (v_deviceId req)), updatedAt := Some t\<rparr>)\<rparr>"
    then obtain k r where r: "MEM_LICENSES st k = Some r"
      and eq: "snd (actionVerify t now req st) =
          st\<lparr>MEM_LICENSES := (MEM_LICENSES st)(k \<mapsto>
               r\<lparr>boundDevice := Some (the (v_deviceId req)), updatedAt := Some t\<rparr>)\<rparr>"
      by blast
    have "lic_wf (st\<lparr>MEM_LICENSES := (MEM_LICENSES st)(k \<mapsto>
               r\<lparr>boundDevice := Some (the (v_deviceId req)), updatedAt := Some t\<rparr>)\<rparr>)"
      using wf r unfolding lic_wf_def by (simp (no_asm_use)) blast
    with eq show ?thesis by simp
  qed
qed

lemma markCanceled_wf:
  assumes wf: "lic_wf st"
  shows "lic_wf (markCanceled now cid pid st)"
proof -
  from markCanceled_state [of now cid pid st] show ?thesis
  proof
    assume "markCanceled now cid pid st = st"
    with wf show ?thesis by simp
  next
    assume "\<exists>r. MEM_LICENSES st (license_key_of cid pid) = Some r \<and>
        markCanceled now cid pid st =
          st\<lparr>MEM_LICENSES := (MEM_LICENSES st)(license_key_of cid pid \<mapsto>
               r\<lparr>status := Some ''canceled'', updatedAt := Some now\<rparr>)\<rparr>"
    then obtain r where r: "MEM_LICENSES st (license_key_of cid pid) = Some r"
      and eq: "markCanceled now cid pid st =
          st\<lparr>MEM_LICENSES := (MEM_LICENSES st)(license_key_of cid pid \<mapsto>
               r\<lparr>status := Some ''canceled'', updatedAt := Some now\<rparr>)\<rparr>"
      by blast
    have "lic_wf (st\<lparr>MEM_LICENSES := (MEM_LICENSES st)(license_key_of cid pid \<mapsto>
               r\<lparr>status := Some ''canceled'', updatedAt := Some now\<rparr>)\<rparr>)"
      using wf r unfolding lic_wf_def by (simp (no_asm_use)) blast
    with eq show ?thesis by simp
  qed
qed

lemma tokenConsume_licenses [simp]:
  "MEM_LICENSES (snd (tokenConsume now t st)) = MEM_LICENSES st"
  "MEM_INDEX (snd (tokenConsume now t st)) = MEM_INDEX st"
  by (simp_all add: tokenConsume_def split: option.splits)

lemma tokenSet_licenses [simp]:
  "MEM_LICENSES (tokenSet t r st) = MEM_LICENSES st"
  "MEM_INDEX (tokenSet t r st) = MEM_INDEX st"
  by (simp_all add: tokenSet_def)

lemma step_wf:
  assumes "lic_wf st" "op_ids_ok x"
  shows "lic_wf (step x st)"
proof (cases x)
  case (Ensure r1 r2 now a)
  with assms show ?thesis by (simp add: ensureLicense_wf)
next
  case (Verify t now req)
  with assms show ?thesis by (simp add: actionVerify_wf)
next
  case (Cancel now cid pid)
  with assms show ?thesis by (simp add: markCanceled_wf)
next
  case (Issue t r)
  with assms show ?thesis by (simp add: lic_wf_def)
next
  case (Consume now t)
  with assms show ?thesis by (simp add: lic_wf_def)
qed

lemma run_wf: "lic_wf st \<Longrightarrow> ids_ok xs \<Longrightarrow> lic_wf (run xs st)"
  by (induction xs arbitrary: st) (simp_all add: ids_ok_def step_wf)


lemma ensureLicense_evolves:
  assumes wf: "lic_wf st" and r: "MEM_LICENSES st k = Some r"
  shows "\<exists>r'. MEM_LICENSES (snd (ensureLicense r1 r2 now a st)) k = Some r' \<and> evolves r r'"
proof (cases "MEM_LICENSES st (license_key_of (a_customerId a) (a_productId a))")
  case None
  with r have "k \<noteq> license_key_of (a_customerId a) (a_productId a)" by auto
  with r show ?thesis
    by (simp add: ensureLicense_on_absent [OF None] evolves_refl)
next
  case (Some old)
  have t: "truthy (licenseKey old)" by (rule lic_wfD(1) [OF wf Some])
  show ?thesis
  proof (cases "k = license_key_of (a_customerId a) (a_productId a)")
    case True
    with r Some have "old = r" by simp
    with True show ?thesis
      by (simp add: ensureLicense_on_existing [OF Some t] evolves_def)
  next
    case False
    with r show ?thesis
      by (simp add: ensureLicense_on_existing [OF Some t] evolves_refl)
  qed
qed

lemma actionVerify_evolves:
  assumes wf: "lic_wf st" and r: "MEM_LICENSES st k = Some r"
  shows "\<exists>r'. MEM_LICENSES (snd (actionVerify t now req st)) k = Some r' \<and> evolves r r'"
proof -
  from actionVerify_state [OF wf, of t now req] show ?thesis
  proof
    assume "snd (actionVerify t now req st) = st"
    with r show ?thesis by (simp add: evolves_refl)
  next
    assume "\<exists>k r. MEM_LICENSES st k = Some r \<and> boundDevice r = Some [] \<and>
        getLicenseByKey (the (v_licenseKey req))
          (case v_productId req of None \<Rightarrow> PRODUCT_ID_DEFAULT | Some p \<Rightarrow> p) st = Some r \<and>
        snd (actionVerify t now req st) =
          st\<lparr>MEM_LICENSES := (MEM_LICENSES st)(k \<mapsto>
               r\<lparr>boundDevice := Some (the (v_deviceId req)), updatedAt := Some t\<rparr>)\<rparr>"
    then obtain k0 r0 where r0: "MEM_LICENSES st k0 = Some r0" "boundDevice r0 = Some []"
      and eq: "snd (actionVerify t now req st) =
          st\<lparr>MEM_LICENSES := (MEM_LICENSES st)(k0 \<mapsto>
               r0\<lparr>boundDevice := Some (the (v_deviceId req)), updatedAt := Some t\<rparr>)\<rparr>"
      by blast
    show ?thesis
    proof (cases "k = k0")
      case True
      with r r0 have "r0 = r" by simp
      with True r0(2) show ?thesis
        by (simp add: eq evolves_def truthy_def)
    next
      case False
      with r show ?thesis by (simp add: eq evolves_refl)
    qed
  qed
qed

lemma markCanceled_evolves:
  assumes r: "MEM_LICENSES st k = Some r"
  shows "\<exists>r'. MEM_LICENSES (markCanceled now cid pid st) k = Some r' \<and> evolves r r'"
proof -
  from markCanceled_state [of now cid pid st] show ?thesis
  proof
    assume "markCanceled now cid pid st = st"
    with r show ?thesis by (simp add: evolves_refl)
  next
    assume "\<exists>r. MEM_LICENSES st (license_key_of cid pid) = Some r \<and>
        markCanceled now cid pid st =
          st\<lparr>MEM_LICENSES := (MEM_LICENSES st)(license_key_of cid pid \<mapsto>
               r\<lparr>status := Some ''canceled'', updatedAt := Some now\<rparr>)\<rparr>"
    then obtain r0 where r0: "MEM_LICENSES st (license_key_of cid pid) = Some r0"
      and eq: "markCanceled now cid pid st =
          st\<lparr>MEM_LICENSES := (MEM_LICENSES st)(license_key_of cid pid \<mapsto>
               r0\<lparr>status := Some ''canceled'', updatedAt := Some now\<rparr>)\<rparr>"
      by blast
    show ?thesis
    proof (cases "k = license_key_of cid pid")
      case True
      with r r0 have "r0 = r" by simp
      with True show ?thesis by (simp add: eq evolves_def)
    next
      case False
      with r show ?thesis by (simp add: eq evolves_refl)
    qed
  qed
qed

lemma step_evolves:
  assumes "lic_wf st" "MEM_LICENSES st k = Some r"
  shows "\<exists>r'. MEM_LICENSES (step x st) k = Some r' \<and> evolves r r'"
proof (cases x)
  case (Ensure r1 r2 now a)
  with assms show ?thesis by (simp add: ensureLicense_evolves)
next
  case (Verify t now req)
  with assms show ?thesis by (simp add: actionVerify_evolves)
next
  case (Cancel now cid pid)
  with assms show ?thesis by (simp add: markCanceled_evolves)
next
  case (Issue t r)
  with assms show ?thesis by (simp add: evolves_refl)
next
  case (Consume now t)
  with assms show ?thesis by (simp add: evolves_refl)
qed

lemma run_evolves:
  "lic_wf st \<Longrightarrow> ids_ok xs \<Longrightarrow> MEM_LICENSES st k = Some r \<Longrightarrow>
   \<exists>r'. MEM_LICENSES (run xs st) k = Some r' \<and> evolves r r'"
proof (induction xs arbitrary: st r)
  case Nil
  then show ?case by (simp add: evolves_refl)
next
  case (Cons x xs)
  from Cons.prems have ok: "op_ids_ok x" "ids_ok xs" by (simp_all add: ids_ok_def)
  from step_evolves [OF Cons.prems(1) Cons.prems(3), of x] obtain r1
    where r1: "MEM_LICENSES (step x st) k = Some r1" "evolves r r1" by blast
  from Cons.IH [OF step_wf [OF Cons.prems(1) ok(1)] ok(2) r1(1)] obtain r2
    where "MEM_LICENSES (run xs (step x st)) k = Some r2" "evolves r1 r2" by blast
  with r1(2) show ?case by (auto intro: evolves_trans)
qed

text \<open>The index: only a creation writes it, and only under the key it drew.\<close>

lemma ensureLicense_index:
  "MEM_INDEX (snd (ensureLicense r1 r2 now a st)) =
     (if fst (fst (ensureLicense r1 r2 now a st))
      then (MEM_INDEX st)(index_key_of (randomKey ''LIC'' r1 r2) \<mapsto>
             \<lparr>idx_customerId = a_customerId a, idx_productId = a_productId a\<rparr>)
      else MEM_INDEX st)"
  by (simp add: ensureLicense_def kvIndexSet_def Let_def)

lemma actionVerify_index: "MEM_INDEX (snd (actionVerify t now req st)) = MEM_INDEX st"
  by (simp add: actionVerify_def Let_def split: option.splits)

lemma markCanceled_index: "MEM_INDEX (markCanceled now cid pid st) = MEM_INDEX st"
  by (simp add: markCanceled_def Let_def)

lemma step_index_keeps:
  assumes "fresh_op x st" "MEM_INDEX st ik = Some e"
  shows "MEM_INDEX (step x st) ik = Some e"
proof (cases x)
  case (Ensure r1 r2 now a)
  with assms show ?thesis
    by (auto simp add: ensureLicense_index kvIndexGet_def)
next
  case (Verify t now req)
  with assms show ?thesis by (simp add: actionVerify_index)
next
  case (Cancel now cid pid)
  with assms show ?thesis by (simp add: markCanceled_index)
next
  case (Issue t r)
  with assms show ?thesis by simp
next
  case (Consume now t)
  with assms show ?thesis by simp
qed

lemma run_index_keeps:
  "fresh_run xs st \<Longrightarrow> MEM_INDEX st ik = Some e \<Longrightarrow> MEM_INDEX (run xs st) ik = Some e"
  by (induction xs arbitrary: st) (simp_all add: step_index_keeps)

lemma reach_wf: "ids_ok xs \<Longrightarrow> lic_wf (run xs init_state)"
  by (rule run_wf [OF lic_wf_init])

lemma run_bound_keeps:
  assumes "lic_wf st" "ids_ok xs" "MEM_LICENSES st k = Some r" "truthy (boundDevice r)"
  shows "\<exists>r'. MEM_LICENSES (run xs st) k = Some r' \<and> boundDevice r' = boundDevice r"
  using run_evolves [OF assms(1-3)] assms(4) by (auto simp: evolves_def)

lemma step_keeps_absent:
  assumes wf: "lic_wf st" and ok: "op_ids_ok x" and nc: "no_colon c"
    and none: "MEM_LICENSES st (license_key_of c p) = None"
    and other: "\<forall>r1 r2 now a. x = Ensure r1 r2 now a \<longrightarrow> \<not> (a_customerId a = c \<and> a_productId a = p)"
  shows "MEM_LICENSES (step x st) (license_key_of c p) = None"
proof (cases x)
  case (Ensure r1 r2 now a)
  from ok Ensure have nca: "no_colon (a_customerId a)" by simp
  from other Ensure license_key_inj [OF nca nc]
  have ne: "license_key_of (a_customerId a) (a_productId a) \<noteq> license_key_of c p" by blast
  show ?thesis
  proof (cases "MEM_LICENSES st (license_key_of (a_customerId a) (a_productId a))")
    case None
    with ne none Ensure show ?thesis
      by (simp add: ensureLicense_on_absent [OF None])
  next
    case (Some old)
    have t: "truthy (licenseKey old)" by (rule lic_wfD(1) [OF wf Some])
    from ne none Ensure show ?thesis
      by (simp add: ensureLicense_on_existing [OF Some t])
  qed
next
  case (Verify t now req)
  from actionVerify_state [OF wf, of t now req] none Verify show ?thesis
    by auto
next
  case (Cancel now cid pid)
  from markCanceled_state [of now cid pid st] none Cancel show ?thesis
    by auto
next
  case (Issue t r)
  with none show ?thesis by simp
next
  case (Consume now t)
  with none show ?thesis by simp
qed

lemma created_flags_present:
  "lic_wf st \<Longrightarrow> ids_ok xs \<Longrightarrow> MEM_LICENSES st (license_key_of c p) = Some r \<Longrightarrow>
   created_flags c p xs st = replicate (length (created_flags c p xs st)) False"
proof (induction xs arbitrary: st r)
  case Nil
  then show ?case by simp
next
  case (Cons x xs)
  from Cons.prems have ok: "op_ids_ok x" "ids_ok xs" by (simp_all add: ids_ok_def)
  from step_evolves [OF Cons.prems(1) Cons.prems(3), of x] obtain r1
    where r1: "MEM_LICENSES (step x st) (license_key_of c p) = Some r1" by blast
  note ih = Cons.IH [OF step_wf [OF Cons.prems(1) ok(1)] ok(2) r1]
  show ?case
  proof (cases x)
    case (Ensure r1 r2 now a)
    show ?thesis
    proof (cases "a_customerId a = c \<and> a_productId a = p")
      case True
      with Cons.prems(3) have ex: "MEM_LICENSES st (license_key_of (a_customerId a) (a_productId a)) = Some r"
        by simp
      have "fst (fst (ensureLicense r1 r2 now a st)) = False"
        by (simp add: ensureLicense_on_existing [OF ex lic_wfD(1) [OF Cons.prems(1) ex]])
      with True Ensure ih show ?thesis by simp
    next
      case False
      with Ensure ih show ?thesis by auto
    qed
  next
    case (Verify t now req)
    with ih show ?thesis by simp
  next
    case (Cancel now cid pid)
    with ih show ?thesis by simp
  next
    case (Issue t r)
    with ih show ?thesis by simp
  next
    case (Consume now t)
    with ih show ?thesis by simp
  qed
qed

lemma created_flags_absent:
  "lic_wf st \<Longrightarrow> ids_ok xs \<Longrightarrow> no_colon c \<Longrightarrow> MEM_LICENSES st (license_key_of c p) = None \<Longrightarrow>
   created_flags c p xs st = [] \<or>
   created_flags c p xs st = True # replicate (length (created_flags c p xs st) - 1) False"
proof (induction xs arbitrary: st)
  case Nil
  then show ?case by simp
next
  case (Cons x xs)
  from Cons.prems have ok: "op_ids_ok x" "ids_ok xs" by (simp_all add: ids_ok_def)
  note wf' = step_wf [OF Cons.prems(1) ok(1)]
  show ?case
  proof (cases "\<exists>r1 r2 now a. x = Ensure r1 r2 now a \<and> a_customerId a = c \<and> a_productId a = p")
    case True
    then obtain r1 r2 now a where x: "x = Ensure r1 r2 now a" and a: "a_customerId a = c" "a_productId a = p"
      by blast
    from Cons.prems(4) a have none: "MEM_LICENSES st (license_key_of (a_customerId a) (a_productId a)) = None"
      by simp
    have cr: "fst (fst (ensureLicense r1 r2 now a st)) = True"
      by (simp add: ensureLicense_on_absent [OF none])
    have "\<exists>r. MEM_LICENSES (step x st) (license_key_of c p) = Some r"
      using a x by (simp add: ensureLicense_on_absent [OF none])
    then obtain r where r: "MEM_LICENSES (step x st) (license_key_of c p) = Some r" by blast
    from created_flags_present [OF wf' ok(2) r]
    have "created_flags c p xs (step x st) = replicate (length (created_flags c p xs (step x st))) False" .
    with x a cr show ?thesis by simp
  next
    case False
    then have other: "\<forall>r1 r2 now a. x = Ensure r1 r2 now a \<longrightarrow> \<not> (a_customerId a = c \<and> a_productId a = p)"
      by blast
    from step_keeps_absent [OF Cons.prems(1) ok(1) Cons.prems(3,4) other]
    have none': "MEM_LICENSES (step x st) (license_key_of c p) = None" by blast
    have eq: "created_flags c p (x # xs) st = created_flags c p xs (step x st)"
      using False by (cases x) auto
    from Cons.IH [OF wf' ok(2) Cons.prems(3) none'] eq show ?thesis by simp
  qed
qed

text \<open>
  Every request to the gateway acts on the stores as a history of the operations above,
  so what holds along all histories holds along all sequences of requests.
\<close>

lemma history_nil: "\<exists>xs. st = run xs st \<and> ids_ok xs"
  by (rule exI [of _ "[]"]) (simp add: ids_ok_def)

lemma history_one: "op_ids_ok x \<Longrightarrow> \<exists>xs. step x st = run xs st \<and> ids_ok xs"
  by (rule exI [of _ "[x]"]) (simp add: ids_ok_def)

lemma history_two:
  "op_ids_ok x \<Longrightarrow> op_ids_ok y \<Longrightarrow> \<exists>xs. step y (step x st) = run xs st \<and> ids_ok xs"
  by (rule exI [of _ "[x, y]"]) (simp add: ids_ok_def)

lemma webhook_is_history:
  assumes "case ev of
        Inr (CheckoutSessionCompleted s) \<Rightarrow> no_colon (cs_customer s)
      | Inr (SubscriptionCreated sub) \<Rightarrow> no_colon (sub_customer sub)
      | Inr (SubscriptionUpdated sub) \<Rightarrow> no_colon (sub_customer sub)
      | _ \<Rightarrow> True"
  shows "\<exists>xs. snd (snd (handleStripeWebhook env r1 r2 rb t now ev st)) = run xs st \<and> ids_ok xs"
proof (cases ev)
  case (Inl msg)
  then show ?thesis by (simp add: handleStripeWebhook_def history_nil)
next
  case (Inr event)
  show ?thesis
  proof (cases event)
    case (CheckoutSessionCompleted s)
    from assms Inr CheckoutSessionCompleted have nc: "no_colon (cs_customer s)" by simp
    have one: "a_customerId a = cs_customer s \<Longrightarrow>
        \<exists>xs. snd (ensureLicense r1 r2 t a st) = run xs st \<and> ids_ok xs" for a
      using history_one [of "Ensure r1 r2 t a" st] nc by simp
    have two: "a_customerId a = cs_customer s \<Longrightarrow>
        \<exists>xs. tokenSet tok rec (snd (ensureLicense r1 r2 t a st)) = run xs st \<and> ids_ok xs"
      for a tok rec
      using history_two [of "Ensure r1 r2 t a" "Issue tok rec" st] nc by simp
    from Inr CheckoutSessionCompleted show ?thesis
      by (simp add: handleStripeWebhook_def Let_def split_beta history_nil one two
          split: sum.splits option.splits)
  next
    case (SubscriptionCreated sub)
    with assms Inr have nc: "no_colon (sub_customer sub)" by simp
    from Inr SubscriptionCreated show ?thesis
      using history_one [of "Ensure r1 r2 t
             \<lparr>a_customerId = sub_customer sub, a_email = Some [], a_productId = product_of sub,
              a_status = sub_status sub,
              a_currentPeriodEnd = sub_current_period_end sub * 1000\<rparr>" st] nc
      by (simp add: handleStripeWebhook_def)
  next
    case (SubscriptionUpdated sub)
    with assms Inr have nc: "no_colon (sub_customer sub)" by simp
    from Inr SubscriptionUpdated show ?thesis
      using history_one [of "Ensure r1 r2 t
             \<lparr>a_customerId = sub_customer sub, a_email = Some [], a_productId = product_of sub,
              a_status = sub_status sub,
              a_currentPeriodEnd = sub_current_period_end sub * 1000\<rparr>" st] nc
      by (simp add: handleStripeWebhook_def)
  next
    case (SubscriptionDeleted sub)
    with Inr show ?thesis
      using history_one [of "Cancel t (customer_or_id (sub_customer sub)) (product_of sub)" st]
      by (simp add: handleStripeWebhook_def)
  next
    case (InvoicePaymentFailed iv)
    have "\<exists>xs. markCanceled t (customer_or_id (inv_customer iv)) (product_of sub) st = run xs st \<and>
        ids_ok xs" for sub
      using history_one [of "Cancel t (customer_or_id (inv_customer iv)) (product_of sub)" st]
      by simp
    with Inr InvoicePaymentFailed show ?thesis
      by (simp add: handleStripeWebhook_def history_nil split: sum.splits)
  next
    case OtherEvent
    with Inr show ?thesis by (simp add: handleStripeWebhook_def history_nil)
  qed
qed

lemma gateway_request_is_history:
  assumes "request_ids_ok req"
  shows "\<exists>xs. snd (snd (gateway_handler env d req st)) = run xs st \<and> ids_ok xs"
proof (cases "truthy (g_stripe_signature req)")
  case True
  with assms show ?thesis
    using webhook_is_history [of "g_signed req" env "d_r1 d" "d_r2 d" "d_rb d" "d_t d" "d_now d" st]
    by (simp add: gateway_handler_def request_ids_ok_def)
next
  case False
  have checkout: "\<exists>xs. snd (actionCheckout env (g_method req) st) = run xs st \<and> ids_ok xs"
    by (simp add: actionCheckout_def history_nil split: sum.splits)
  have issue: "\<exists>xs. tokenSet tok rec st = run xs st \<and> ids_ok xs" for tok rec
    using history_one [of "Issue tok rec" st] by simp
  have thanks: "\<exists>xs. snd (actionThanks env (d_rb d) (d_now d) (g_query_session_id req) st)
      = run xs st \<and> ids_ok xs"
    by (simp add: actionThanks_def Let_def history_nil issue split: sum.splits)
  have token: "\<exists>xs. snd (actionMakeToken env (d_rb d) (d_now d)
      \<lparr>http_method = g_method req, body_session_id = g_body_session_id req\<rparr> st)
      = run xs st \<and> ids_ok xs"
    by (simp add: actionMakeToken_def Let_def history_nil issue split: sum.splits)
  have consume: "\<exists>xs. snd (tokenConsume (d_now d) tok st) = run xs st \<and> ids_ok xs" for tok
    using history_one [of "Consume (d_now d) tok" st] by simp
  have download: "\<exists>xs. snd (actionDownload env (d_now d) (g_query_token req) st)
      = run xs st \<and> ids_ok xs"
    by (simp add: actionDownload_def Let_def split_beta history_nil consume split: sum.splits)
  have verify: "\<exists>xs. snd (actionVerify (d_t d) (d_now d)
      \<lparr>v_method = g_method req, v_licenseKey = g_licenseKey req,
       v_deviceId = g_deviceId req, v_productId = g_productId req\<rparr> st) = run xs st \<and> ids_ok xs"
    using history_one [of "Verify (d_t d) (d_now d)
      \<lparr>v_method = g_method req, v_licenseKey = g_licenseKey req,
       v_deviceId = g_deviceId req, v_productId = g_productId req\<rparr>" st]
    by simp
  from False checkout thanks token download verify show ?thesis
    by (simp add: gateway_handler_def Let_def split_beta history_nil)
qed

lemmas gw_eval =
  ensureLicense_def kvHGetAll_def kvHSet_def kvIndexSet_def kvIndexGet_def spread_def over_def
  empty_obj_def randomKey_def toUpperCase_char_def license_key_of_def index_key_of_def
  init_state_def truthy_def actionVerify_def getLicenseByKey_def Let_def ids_ok_def no_colon_def
  markCanceled_def interp_def PRODUCT_ID_DEFAULT_def verified_def valid_def GOOD_STATUSES_def
  tokenSet_def tokenConsume_def ensureLicense_webhook_def

subsection \<open>Device binding\<close>

text \<open>
  Claim C3. Take any state the gateway reaches from empty stores by \<open>ensureLicense\<close>,
  verify, cancellation and token operations (customer ids without colon), a license key
  whose record for the requested product is still unbound, and a first verify call with a
  non-empty device id \<open>devA\<close>: it answers 200 and binds. After any further history
  \<open>xs\<close> of such operations (in which no newly created license draws a key already in
  the index), a verify call with the same key and product and another non-empty device
  id \<open>devB\<close> answers 403 \<open>{active:false, status:"device_limit"}\<close>, changes nothing, and
  the record is still bound to \<open>devA\<close>. In general no history changes a non-empty
  \<open>boundDevice\<close> of any stored record.
\<close>

theorem device_binding_sticky:
  assumes reach: "st = run xs0 init_state" "ids_ok xs0"
    and pid: "pid = (case po of None \<Rightarrow> PRODUCT_ID_DEFAULT | Some p \<Rightarrow> p)"
    and ne: "lk \<noteq> []" "devA \<noteq> []" "devB \<noteq> []" "devB \<noteq> devA"
    and unbound: "getLicenseByKey lk pid st = Some lic" "\<not> truthy (boundDevice lic)"
    and first: "st1 = snd (actionVerify t now
        \<lparr>v_method = ''POST'', v_licenseKey = Some lk, v_deviceId = Some devA, v_productId = po\<rparr> st)"
    and later: "ids_ok xs" "fresh_run xs st1" "ids_ok ys"
  shows "fst (actionVerify t now
        \<lparr>v_method = ''POST'', v_licenseKey = Some lk, v_deviceId = Some devA, v_productId = po\<rparr> st)
      = verified now lic
    \<and> actionVerify t' now'
        \<lparr>v_method = ''POST'', v_licenseKey = Some lk, v_deviceId = Some devB, v_productId = po\<rparr>
        (run xs st1)
      = ((403, VerifyBody False (Some ''device_limit'') None), run xs st1)
    \<and> (\<exists>lic'. getLicenseByKey lk pid (run xs st1) = Some lic' \<and> boundDevice lic' = Some devA)
    \<and> (MEM_LICENSES st k = Some r \<and> truthy (boundDevice r) \<longrightarrow>
         (\<exists>r'. MEM_LICENSES (run ys st) k = Some r' \<and> boundDevice r' = boundDevice r))"
proof -
  let ?reqA = "\<lparr>v_method = ''POST'', v_licenseKey = Some lk, v_deviceId = Some devA, v_productId = po\<rparr>"
  let ?reqB = "\<lparr>v_method = ''POST'', v_licenseKey = Some lk, v_deviceId = Some devB, v_productId = po\<rparr>"
  have wf: "lic_wf st" using reach by (simp add: reach_wf)
  from getLicenseByKey_wf [OF wf unbound(1)] obtain e where
    e: "MEM_INDEX st (index_key_of lk) = Some e"
    and l: "MEM_LICENSES st (license_key_of (idx_customerId e) pid) = Some lic"
    and c: "customerId lic = Some (idx_customerId e)"
    by blast
  let ?rk = "license_key_of (idx_customerId e) pid"
  from lic_wfD(6) [OF wf l] unbound(2) have b: "boundDevice lic = Some []"
    by (auto simp: truthy_def)
  have hs: "kvHSet ?rk (empty_obj\<lparr>boundDevice := Some devA, updatedAt := Some t\<rparr>) st =
            st\<lparr>MEM_LICENSES := (MEM_LICENSES st)(?rk \<mapsto>
               lic\<lparr>boundDevice := Some devA, updatedAt := Some t\<rparr>)\<rparr>"
    using l by (simp add: kvHSet_def Let_def spread_bind)
  have v1: "actionVerify t now ?reqA st =
      (verified now lic, st\<lparr>MEM_LICENSES := (MEM_LICENSES st)(?rk \<mapsto>
               lic\<lparr>boundDevice := Some devA, updatedAt := Some t\<rparr>)\<rparr>)"
    using ne unbound b c hs pid
    by (simp add: actionVerify_def Let_def truthy_def interp_def)
  have st1: "st1 = st\<lparr>MEM_LICENSES := (MEM_LICENSES st)(?rk \<mapsto>
               lic\<lparr>boundDevice := Some devA, updatedAt := Some t\<rparr>)\<rparr>"
    using first v1 by simp
  have wf1: "lic_wf st1"
    unfolding first by (rule actionVerify_wf [OF wf])
  have l1: "MEM_LICENSES st1 ?rk = Some (lic\<lparr>boundDevice := Some devA, updatedAt := Some t\<rparr>)"
    by (simp add: st1)
  have e1: "MEM_INDEX st1 (index_key_of lk) = Some e"
    using e by (simp add: st1)
  from run_bound_keeps [OF wf1 later(1) l1] ne(2) obtain r2 where
    r2: "MEM_LICENSES (run xs st1) ?rk = Some r2" "boundDevice r2 = Some devA"
    by (auto simp: truthy_def)
  have e2: "MEM_INDEX (run xs st1) (index_key_of lk) = Some e"
    by (rule run_index_keeps [OF later(2) e1])
  have g2: "getLicenseByKey lk pid (run xs st1) = Some r2"
    using e2 r2(1) by (simp add: getLicenseByKey_def kvIndexGet_def kvHGetAll_def)
  have v2: "actionVerify t' now' ?reqB (run xs st1) =
      ((403, VerifyBody False (Some ''device_limit'') None), run xs st1)"
    using ne g2 r2(2) pid
    by (simp add: actionVerify_def Let_def truthy_def)
  have gen: "MEM_LICENSES st k = Some r \<and> truthy (boundDevice r) \<longrightarrow>
         (\<exists>r'. MEM_LICENSES (run ys st) k = Some r' \<and> boundDevice r' = boundDevice r)"
    using run_bound_keeps [OF wf later(3)] by blast
  from v1 v2 g2 r2(2) gen show ?thesis by simp
qed

theorem device_binding_sticky_witness:
  "fst (actionVerify 5000 5001 (ex_verify ''LIC-AAAA-BBBB'' ''dev-1'' (Some ''p1''))
         (run [Ensure ''cccc'' ''dddd'' 900 (ex_args ''cus_2'' ''truetrend-ai'' ''trialing'' 99000),
               Verify 950 951 (ex_verify ''LIC-CCCC-DDDD'' ''dev-9'' None),
               Ensure ''aaaa'' ''bbbb'' 1000 (ex_args ''cus_1'' ''p1'' ''active'' 0)] init_state))
     = (200, VerifyBody True (Some ''active'') (Some 0))
   \<and> actionVerify 7000 7001 (ex_verify ''LIC-AAAA-BBBB'' ''dev-2'' (Some ''p1''))
        (run [Cancel 6000 ''cus_1'' ''p1'',
              Ensure ''eeee'' ''ffff'' 6500 (ex_args ''cus_3'' ''p1'' ''active'' 0)]
          (snd (actionVerify 5000 5001 (ex_verify ''LIC-AAAA-BBBB'' ''dev-1'' (Some ''p1''))
            (run [Ensure ''cccc'' ''dddd'' 900 (ex_args ''cus_2'' ''truetrend-ai'' ''trialing'' 99000),
                  Verify 950 951 (ex_verify ''LIC-CCCC-DDDD'' ''dev-9'' None),
                  Ensure ''aaaa'' ''bbbb'' 1000 (ex_args ''cus_1'' ''p1'' ''active'' 0)] init_state))))
     = ((403, VerifyBody False (Some ''device_limit'') None),
        run [Cancel 6000 ''cus_1'' ''p1'',
              Ensure ''eeee'' ''ffff'' 6500 (ex_args ''cus_3'' ''p1'' ''active'' 0)]
          (snd (actionVerify 5000 5001 (ex_verify ''LIC-AAAA-BBBB'' ''dev-1'' (Some ''p1''))
            (run [Ensure ''cccc'' ''dddd'' 900 (ex_args ''cus_2'' ''truetrend-ai'' ''trialing'' 99000),
                  Verify 950 951 (ex_verify ''LIC-CCCC-DDDD'' ''dev-9'' None),
                  Ensure ''aaaa'' ''bbbb'' 1000 (ex_args ''cus_1'' ''p1'' ''active'' 0)] init_state))))
   \<and> (\<exists>r'. MEM_LICENSES
          (run [Cancel 6000 ''cus_2'' ''truetrend-ai'',
                Verify 6100 6101 (ex_verify ''LIC-CCCC-DDDD'' ''dev-7'' None)]
            (run [Ensure ''cccc'' ''dddd'' 900 (ex_args ''cus_2'' ''truetrend-ai'' ''trialing'' 99000),
                  Verify 950 951 (ex_verify ''LIC-CCCC-DDDD'' ''dev-9'' None),
                  Ensure ''aaaa'' ''bbbb'' 1000 (ex_args ''cus_1'' ''p1'' ''active'' 0)] init_state))
          ''license:cus_2:truetrend-ai'' = Some r' \<and> boundDevice r' = Some ''dev-9'')"
proof -
  let ?hist = "[Ensure ''cccc'' ''dddd'' 900 (ex_args ''cus_2'' ''truetrend-ai'' ''trialing'' 99000),
               Verify 950 951 (ex_verify ''LIC-CCCC-DDDD'' ''dev-9'' None),
               Ensure ''aaaa'' ''bbbb'' 1000 (ex_args ''cus_1'' ''p1'' ''active'' 0)]"
  let ?st = "run ?hist init_state"
  let ?reqA = "ex_verify ''LIC-AAAA-BBBB'' ''dev-1'' (Some ''p1'')"
  let ?st1 = "snd (actionVerify 5000 5001 ?reqA ?st)"
  let ?xs = "[Cancel 6000 ''cus_1'' ''p1'',
              Ensure ''eeee'' ''ffff'' 6500 (ex_args ''cus_3'' ''p1'' ''active'' 0)]"
  let ?ys = "[Cancel 6000 ''cus_2'' ''truetrend-ai'',
              Verify 6100 6101 (ex_verify ''LIC-CCCC-DDDD'' ''dev-7'' None)]"
  let ?lic = "ex_lic ''LIC-AAAA-BBBB'' ''cus_1'' ''p1'' ''active'' 0 [] 1000"
  let ?r = "\<lparr>licenseKey = Some ''LIC-CCCC-DDDD'', customerId = Some ''cus_2'',
      productId = Some ''truetrend-ai'', email = Some ''a@b.c'', status = Some ''trialing'',
      currentPeriodEnd = Some 99000, boundDevice = Some ''dev-9'', deviceLimit = Some 1,
      updatedAt = Some 950\<rparr>"
  have reach: "?st = run ?hist init_state" by (rule refl)
  have ids0: "ids_ok ?hist" by (simp add: ids_ok_def no_colon_def)
  have pid: "''p1'' = (case Some ''p1'' of None \<Rightarrow> PRODUCT_ID_DEFAULT | Some p \<Rightarrow> p)" by simp
  have ne: "''LIC-AAAA-BBBB'' \<noteq> []" "''dev-1'' \<noteq> []" "''dev-2'' \<noteq> []" "''dev-2'' \<noteq> ''dev-1''"
    by simp_all
  have unbound: "getLicenseByKey ''LIC-AAAA-BBBB'' ''p1'' ?st = Some ?lic"
    by (simp add: gw_eval)
  have empty: "\<not> truthy (boundDevice ?lic)" by (simp add: truthy_def)
  have first: "?st1 = snd (actionVerify 5000 5001 ?reqA ?st)" by (rule refl)
  have ids: "ids_ok ?xs" by (simp add: ids_ok_def no_colon_def)
  have fresh: "fresh_run ?xs ?st1" by (simp add: gw_eval)
  have idsy: "ids_ok ?ys" by (simp add: ids_ok_def no_colon_def)
  have bound: "MEM_LICENSES ?st ''license:cus_2:truetrend-ai'' = Some ?r \<and> truthy (boundDevice ?r)"
    by (simp add: gw_eval)
  note th = device_binding_sticky [OF reach ids0 pid ne unbound empty first ids fresh idsy,
      where t' = 7000 and now' = 7001 and k = "''license:cus_2:truetrend-ai''" and r = ?r]
  from th [THEN conjunct1]
  have a: "fst (actionVerify 5000 5001 ?reqA ?st) = (200, VerifyBody True (Some ''active'') (Some 0))"
    by (simp add: verified_def valid_def GOOD_STATUSES_def)
  note b = th [THEN conjunct2, THEN conjunct1]
  from th [THEN conjunct2, THEN conjunct2, THEN conjunct2, THEN mp, OF bound]
  have c: "\<exists>r'. MEM_LICENSES (run ?ys ?st) ''license:cus_2:truetrend-ai'' = Some r' \<and>
             boundDevice r' = Some ''dev-9''"
    by simp
  from a b c show ?thesis by (intro conjI)
qed

subsection \<open>License identity\<close>

text \<open>
  Claim C4. In a reachable state with no record for \<open>(customerId, productId)\<close>, the
  first \<open>ensureLicense\<close> call returns \<open>created = true\<close> and the key it has just
  generated; after any further history every \<open>ensureLicense\<close> call for the same pair,
  whatever its status and period end, returns \<open>created = false\<close> and that same key,
  which is also the key stored. Over any history from empty stores the \<open>created\<close> flags
  returned for one pair are \<open>true\<close> once, at the first call, and \<open>false\<close> ever after.
\<close>

theorem ensureLicense_identity:
  assumes reach: "st = run xs0 init_state" "ids_ok xs0"
    and nc: "no_colon (a_customerId a)"
    and first: "kvHGetAll (license_key_of (a_customerId a) (a_productId a)) st = None"
    and later: "ids_ok xs"
    and same: "a_customerId a' = a_customerId a" "a_productId a' = a_productId a"
    and "no_colon c" "ids_ok ys"
  shows "fst (ensureLicense r1 r2 now a st) = (True, randomKey ''LIC'' r1 r2)
    \<and> fst (ensureLicense r1' r2' now' a' (run xs (snd (ensureLicense r1 r2 now a st))))
        = (False, randomKey ''LIC'' r1 r2)
    \<and> (\<exists>r. kvHGetAll (license_key_of (a_customerId a) (a_productId a))
              (run xs (snd (ensureLicense r1 r2 now a st))) = Some r \<and>
            licenseKey r = Some (randomKey ''LIC'' r1 r2))
    \<and> (created_flags c p ys init_state = [] \<or>
        created_flags c p ys init_state =
          True # replicate (length (created_flags c p ys init_state) - 1) False)"
proof -
  let ?key = "license_key_of (a_customerId a) (a_productId a)"
  let ?st1 = "snd (ensureLicense r1 r2 now a st)"
  have wf: "lic_wf st" using reach by (simp add: reach_wf)
  from first have none: "MEM_LICENSES st ?key = None" by (simp add: kvHGetAll_def)
  have c1: "fst (ensureLicense r1 r2 now a st) = (True, randomKey ''LIC'' r1 r2)"
    by (simp add: ensureLicense_on_absent [OF none])
  have wf1: "lic_wf ?st1" by (rule ensureLicense_wf [OF wf nc])
  have "\<exists>r. MEM_LICENSES ?st1 ?key = Some r \<and> licenseKey r = Some (randomKey ''LIC'' r1 r2)"
    by (simp add: ensureLicense_on_absent [OF none])
  then obtain r where r: "MEM_LICENSES ?st1 ?key = Some r" "licenseKey r = Some (randomKey ''LIC'' r1 r2)"
    by blast
  from run_evolves [OF wf1 later r(1)] r(2) obtain r' where
    r': "MEM_LICENSES (run xs ?st1) ?key = Some r'" "licenseKey r' = Some (randomKey ''LIC'' r1 r2)"
    by (auto simp: evolves_def)
  have wf2: "lic_wf (run xs ?st1)" by (rule run_wf [OF wf1 later])
  from r'(1) same have ex: "MEM_LICENSES (run xs ?st1) (license_key_of (a_customerId a') (a_productId a')) = Some r'"
    by simp
  have c2: "fst (ensureLicense r1' r2' now' a' (run xs ?st1)) = (False, randomKey ''LIC'' r1 r2)"
    using r'(2) by (simp add: ensureLicense_on_existing [OF ex lic_wfD(1) [OF wf2 ex]])
  have c3: "\<exists>r. kvHGetAll ?key (run xs ?st1) = Some r \<and> licenseKey r = Some (randomKey ''LIC'' r1 r2)"
    using r' by (simp add: kvHGetAll_def)
  have c4: "created_flags c p ys init_state = [] \<or>
        created_flags c p ys init_state =
          True # replicate (length (created_flags c p ys init_state) - 1) False"
    by (rule created_flags_absent [OF lic_wf_init \<open>ids_ok ys\<close> \<open>no_colon c\<close>])
       (simp add: init_state_def)
  from c1 c2 c3 c4 show ?thesis by blast
qed

theorem ensureLicense_identity_witness:
  "fst (ensureLicense ''aaaa'' ''bbbb'' 1000 (ex_args ''cus_1'' ''p1'' ''active'' 0) init_state)
     = (True, ''LIC-AAAA-BBBB'')
   \<and> fst (ensureLicense ''cccc'' ''dddd'' 3000 (ex_args ''cus_1'' ''p1'' ''past_due'' 77000)
        (run [Verify 2000 2001 (ex_verify ''LIC-AAAA-BBBB'' ''dev-1'' (Some ''p1'')),
              Cancel 2500 ''cus_1'' ''p1'']
          (snd (ensureLicense ''aaaa'' ''bbbb'' 1000 (ex_args ''cus_1'' ''p1'' ''active'' 0)
                 init_state))))
     = (False, ''LIC-AAAA-BBBB'')
   \<and> created_flags ''cus_1'' ''p1''
        [Ensure ''aaaa'' ''bbbb'' 1000 (ex_args ''cus_1'' ''p1'' ''active'' 0),
         Ensure ''gggg'' ''hhhh'' 1500 (ex_args ''cus_2'' ''p1'' ''active'' 0),
         Ensure ''cccc'' ''dddd'' 3000 (ex_args ''cus_1'' ''p1'' ''past_due'' 77000),
         Ensure ''eeee'' ''ffff'' 4000 (ex_args ''cus_1'' ''p1'' ''active'' 0)] init_state
     = [True, False, False]"
proof -
  let ?a = "ex_args ''cus_1'' ''p1'' ''active'' 0"
  let ?a' = "ex_args ''cus_1'' ''p1'' ''past_due'' 77000"
  let ?xs = "[Verify 2000 2001 (ex_verify ''LIC-AAAA-BBBB'' ''dev-1'' (Some ''p1'')),
              Cancel 2500 ''cus_1'' ''p1'']"
  let ?ys = "[Ensure ''aaaa'' ''bbbb'' 1000 ?a,
         Ensure ''gggg'' ''hhhh'' 1500 (ex_args ''cus_2'' ''p1'' ''active'' 0),
         Ensure ''cccc'' ''dddd'' 3000 ?a',
         Ensure ''eeee'' ''ffff'' 4000 (ex_args ''cus_1'' ''p1'' ''active'' 0)]"
  have reach: "init_state = run [] init_state" by simp
  have ids0: "ids_ok []" by (simp add: ids_ok_def)
  have nc: "no_colon (a_customerId ?a)" by (simp add: no_colon_def)
  have first: "kvHGetAll (license_key_of (a_customerId ?a) (a_productId ?a)) init_state = None"
    by (simp add: kvHGetAll_def init_state_def)
  have ids: "ids_ok ?xs" by (simp add: ids_ok_def)
  have same: "a_customerId ?a' = a_customerId ?a" "a_productId ?a' = a_productId ?a" by simp_all
  have ncc: "no_colon ''cus_1''" by (simp add: no_colon_def)
  have idsy: "ids_ok ?ys" by (simp add: ids_ok_def no_colon_def)
  have key: "randomKey ''LIC'' ''aaaa'' ''bbbb'' = ''LIC-AAAA-BBBB''"
    by (simp add: randomKey_def toUpperCase_char_def)
  note th = ensureLicense_identity [OF reach ids0 nc first ids same ncc idsy,
      where ?r1.0 = "''aaaa''" and ?r2.0 = "''bbbb''" and now = 1000
        and r1' = "''cccc''" and r2' = "''dddd''" and now' = 3000 and p = "''p1''"]
  from th [THEN conjunct1] key
  have a: "fst (ensureLicense ''aaaa'' ''bbbb'' 1000 ?a init_state) = (True, ''LIC-AAAA-BBBB'')"
    by simp
  from th [THEN conjunct2, THEN conjunct1] key
  have b: "fst (ensureLicense ''cccc'' ''dddd'' 3000 ?a'
        (run ?xs (snd (ensureLicense ''aaaa'' ''bbbb'' 1000 ?a init_state))))
     = (False, ''LIC-AAAA-BBBB'')"
    by simp
  have len: "length (created_flags ''cus_1'' ''p1'' ?ys init_state) = 3"
    by (simp add: gw_eval)
  from th [THEN conjunct2, THEN conjunct2, THEN conjunct2] len
  have c: "created_flags ''cus_1'' ''p1'' ?ys init_state = [True, False, False]"
    by (auto simp add: numeral_3_eq_3)
  from a b c show ?thesis by (intro conjI)
qed

text \<open>
  Claim C8. When the record for \<open>(customerId, productId)\<close> exists, \<open>ensureLicense\<close>
  returns \<open>created = false\<close> with the stored key and rewrites that one record in three
  fields only: \<open>status\<close>, \<open>updatedAt\<close>, and \<open>currentPeriodEnd\<close>, which keeps its stored
  value when the argument is zero. Every other field, every other record, the index
  and the tokens are as before. The gateway is taken in a reachable state; the webhook
  file's \<open>ensureLicense\<close> in any KV store.
\<close>

theorem ensureLicense_update_frame:
  assumes reach: "st = run xs0 init_state" "ids_ok xs0"
    and ex: "kvHGetAll (license_key_of (a_customerId a) (a_productId a)) st = Some old"
    and exw: "kv (license_key_of (a_customerId a) (a_productId a)) = Some oldw"
  shows "ensureLicense r1 r2 now a st =
      ((False, the (licenseKey old)),
       st\<lparr>MEM_LICENSES := (MEM_LICENSES st)(license_key_of (a_customerId a) (a_productId a) \<mapsto>
            old\<lparr>status := Some (a_status a),
                currentPeriodEnd :=
                  (if a_currentPeriodEnd a \<noteq> 0 then Some (a_currentPeriodEnd a)
                   else currentPeriodEnd old),
                updatedAt := Some now\<rparr>)\<rparr>)
    \<and> ensureLicense_webhook r1 r2 now a kv =
      ((False, licenseKey oldw),
       kv(license_key_of (a_customerId a) (a_productId a) \<mapsto>
            oldw\<lparr>status := Some (a_status a),
                 currentPeriodEnd :=
                   Some (if a_currentPeriodEnd a \<noteq> 0 then a_currentPeriodEnd a
                         else (case currentPeriodEnd oldw of None \<Rightarrow> 0 | Some e \<Rightarrow> e)),
                 updatedAt := Some now\<rparr>))"
proof -
  have wf: "lic_wf st" using reach by (simp add: reach_wf)
  from ex have l: "MEM_LICENSES st (license_key_of (a_customerId a) (a_productId a)) = Some old"
    by (simp add: kvHGetAll_def)
  from lic_wfD(5) [OF wf l] obtain e where e: "currentPeriodEnd old = Some e" by blast
  have g: "ensureLicense r1 r2 now a st =
      ((False, the (licenseKey old)),
       st\<lparr>MEM_LICENSES := (MEM_LICENSES st)(license_key_of (a_customerId a) (a_productId a) \<mapsto>
            old\<lparr>status := Some (a_status a),
                currentPeriodEnd :=
                  (if a_currentPeriodEnd a \<noteq> 0 then Some (a_currentPeriodEnd a)
                   else currentPeriodEnd old),
                updatedAt := Some now\<rparr>)\<rparr>)"
    using e by (simp add: ensureLicense_on_existing [OF l lic_wfD(1) [OF wf l]])
  have w: "ensureLicense_webhook r1 r2 now a kv =
      ((False, licenseKey oldw),
       kv(license_key_of (a_customerId a) (a_productId a) \<mapsto>
            oldw\<lparr>status := Some (a_status a),
                 currentPeriodEnd :=
                   Some (if a_currentPeriodEnd a \<noteq> 0 then a_currentPeriodEnd a
                         else (case currentPeriodEnd oldw of None \<Rightarrow> 0 | Some e \<Rightarrow> e)),
                 updatedAt := Some now\<rparr>))"
    using exw
    by (cases oldw)
       (auto simp add: ensureLicense_webhook_def Let_def spread_def over_def empty_obj_def
          split: option.splits)
  from g w show ?thesis by simp
qed

theorem ensureLicense_update_frame_witness:
  "ensureLicense ''cccc'' ''dddd'' 3000 (ex_args ''cus_1'' ''p1'' ''past_due'' 0)
     (run [Ensure ''aaaa'' ''bbbb'' 1000 (ex_args ''cus_1'' ''p1'' ''trialing'' 99000),
           Verify 2000 2001 (ex_verify ''LIC-AAAA-BBBB'' ''dev-1'' (Some ''p1''))] init_state)
   = ((False, ''LIC-AAAA-BBBB''),
      \<lparr>MEM_TOKENS = Map.empty,
       MEM_LICENSES = [''license:cus_1:p1'' \<mapsto>
         ex_lic ''LIC-AAAA-BBBB'' ''cus_1'' ''p1'' ''past_due'' 99000 ''dev-1'' 3000],
       MEM_INDEX = [''licenseIndex:LIC-AAAA-BBBB'' \<mapsto>
         \<lparr>idx_customerId = ''cus_1'', idx_productId = ''p1''\<rparr>]\<rparr>)
   \<and> ensureLicense_webhook ''cccc'' ''dddd'' 3000 (ex_args ''cus_1'' ''p1'' ''past_due'' 0)
     [''license:cus_1:p1'' \<mapsto> ex_lic ''LIC-AAAA-BBBB'' ''cus_1'' ''p1'' ''trialing'' 99000 [] 1000]
   = ((False, Some ''LIC-AAAA-BBBB''),
      [''license:cus_1:p1'' \<mapsto> ex_lic ''LIC-AAAA-BBBB'' ''cus_1'' ''p1'' ''past_due'' 99000 [] 3000])"
proof -
  let ?hist = "[Ensure ''aaaa'' ''bbbb'' 1000 (ex_args ''cus_1'' ''p1'' ''trialing'' 99000),
           Verify 2000 2001 (ex_verify ''LIC-AAAA-BBBB'' ''dev-1'' (Some ''p1''))]"
  let ?st = "run ?hist init_state"
  let ?a = "ex_args ''cus_1'' ''p1'' ''past_due'' 0"
  let ?old = "ex_lic ''LIC-AAAA-BBBB'' ''cus_1'' ''p1'' ''trialing'' 99000 ''dev-1'' 2000"
  let ?oldw = "ex_lic ''LIC-AAAA-BBBB'' ''cus_1'' ''p1'' ''trialing'' 99000 [] 1000"
  have st: "?st = \<lparr>MEM_TOKENS = Map.empty,
       MEM_LICENSES = [''license:cus_1:p1'' \<mapsto> ?old],
       MEM_INDEX = [''licenseIndex:LIC-AAAA-BBBB'' \<mapsto>
         \<lparr>idx_customerId = ''cus_1'', idx_productId = ''p1''\<rparr>]\<rparr>"
    by (simp add: gw_eval)
  have reach: "?st = run ?hist init_state" by (rule refl)
  have ids0: "ids_ok ?hist" by (simp add: ids_ok_def no_colon_def)
  have ex: "kvHGetAll (license_key_of (a_customerId ?a) (a_productId ?a)) ?st = Some ?old"
    unfolding st by (simp add: kvHGetAll_def license_key_of_def)
  have exw: "[''license:cus_1:p1'' \<mapsto> ?oldw] (license_key_of (a_customerId ?a) (a_productId ?a))
      = Some ?oldw"
    by (simp add: license_key_of_def)
  note th = ensureLicense_update_frame [where kv = "[''license:cus_1:p1'' \<mapsto> ?oldw]"
      and oldw = ?oldw and ?r1.0 = "''cccc''" and ?r2.0 = "''dddd''" and now = 3000,
      OF reach ids0 ex exw]
  from th [THEN conjunct1]
  have a: "ensureLicense ''cccc'' ''dddd'' 3000 ?a ?st
   = ((False, ''LIC-AAAA-BBBB''),
      \<lparr>MEM_TOKENS = Map.empty,
       MEM_LICENSES = [''license:cus_1:p1'' \<mapsto>
         ex_lic ''LIC-AAAA-BBBB'' ''cus_1'' ''p1'' ''past_due'' 99000 ''dev-1'' 3000],
       MEM_INDEX = [''licenseIndex:LIC-AAAA-BBBB'' \<mapsto>
         \<lparr>idx_customerId = ''cus_1'', idx_productId = ''p1''\<rparr>]\<rparr>)"
    unfolding st by (simp add: license_key_of_def)
  from th [THEN conjunct2]
  have b: "ensureLicense_webhook ''cccc'' ''dddd'' 3000 ?a [''license:cus_1:p1'' \<mapsto> ?oldw]
   = ((False, Some ''LIC-AAAA-BBBB''),
      [''license:cus_1:p1'' \<mapsto> ex_lic ''LIC-AAAA-BBBB'' ''cus_1'' ''p1'' ''past_due'' 99000 [] 3000])"
    by (simp add: license_key_of_def)
  from a b show ?thesis by (intro conjI)
qed

subsection \<open>Entitlement\<close>

text \<open>
  Claim C1. Whenever \<open>actionVerify\<close> gets past the device check (the resolved record is
  unbound, and is then bound, or is bound to the calling device), it answers 200 with
  \<open>active\<close> true exactly if the record's status is \<open>active\<close> or \<open>trialing\<close> and its
  period end is 0 or \<open>now\<close> is at most five minutes past it, with the record's status,
  and with \<open>validUntil\<close> equal to the period end. One millisecond after the period end
  (\<open>currentPeriodEnd = now - 1\<close>) a license with such a status is active; six minutes after a
  period end (which, being a period end, is not the 0 that stands for no expiry) it is
  not.
\<close>

theorem verify_active_iff:
  assumes "v_method req = ''POST''" and "truthy (v_licenseKey req)" and "truthy (v_deviceId req)"
    and "getLicenseByKey (the (v_licenseKey req))
           (case v_productId req of None \<Rightarrow> PRODUCT_ID_DEFAULT | Some p \<Rightarrow> p) st = Some lic"
    and "\<not> truthy (boundDevice lic) \<or> boundDevice lic = v_deviceId req"
    and "status lic = Some s" and "currentPeriodEnd lic = Some e"
  shows "fst (actionVerify t now req st) =
      (200, VerifyBody (s \<in> {''active'', ''trialing''} \<and> (e = 0 \<or> now \<le> e + 5 * 60 * 1000))
              (Some s) (Some e))
    \<and> fst (actionVerify t (e + 1) req st) =
      (200, VerifyBody (s \<in> {''active'', ''trialing''}) (Some s) (Some e))
    \<and> (e \<noteq> 0 \<longrightarrow> fst (actionVerify t (e + 6 * 60 * 1000) req st) =
      (200, VerifyBody False (Some s) (Some e)))"
proof -
  have v: "fst (actionVerify t n req st) = verified n lic" for n
    using assms(1-5)
    by (auto simp add: actionVerify_def Let_def truthy_def split: option.splits)
  have b: "verified n lic =
      (200, VerifyBody (s \<in> {''active'', ''trialing''} \<and> (e = 0 \<or> n \<le> e + 5 * 60 * 1000))
              (Some s) (Some e))" for n
    using assms(6,7) by (simp add: verified_def valid_def GOOD_STATUSES_def)
  show ?thesis
    unfolding v b by simp
qed

theorem verify_active_iff_witness:
  "fst (actionVerify 5000 99000 (ex_verify ''LIC-AAAA-BBBB'' ''dev-1'' None)
         (run [Ensure ''aaaa'' ''bbbb'' 1000 (ex_args ''cus_1'' ''truetrend-ai'' ''trialing'' 98999)]
            init_state))
     = (200, VerifyBody True (Some ''trialing'') (Some 98999))
   \<and> fst (actionVerify 5000 458999 (ex_verify ''LIC-AAAA-BBBB'' ''dev-1'' None)
         (run [Ensure ''aaaa'' ''bbbb'' 1000 (ex_args ''cus_1'' ''truetrend-ai'' ''trialing'' 98999)]
            init_state))
     = (200, VerifyBody False (Some ''trialing'') (Some 98999))
   \<and> fst (actionVerify 5000 398999 (ex_verify ''LIC-AAAA-BBBB'' ''dev-1'' None)
         (run [Ensure ''aaaa'' ''bbbb'' 1000 (ex_args ''cus_1'' ''truetrend-ai'' ''trialing'' 98999)]
            init_state))
     = (200, VerifyBody True (Some ''trialing'') (Some 98999))"
proof -
  let ?st = "run [Ensure ''aaaa'' ''bbbb'' 1000 (ex_args ''cus_1'' ''truetrend-ai'' ''trialing'' 98999)]
               init_state"
  let ?req = "ex_verify ''LIC-AAAA-BBBB'' ''dev-1'' None"
  let ?lic = "ex_lic ''LIC-AAAA-BBBB'' ''cus_1'' ''truetrend-ai'' ''trialing'' 98999 [] 1000"
  have h1: "v_method ?req = ''POST''" by simp
  have h2: "truthy (v_licenseKey ?req)" by (simp add: truthy_def)
  have h3: "truthy (v_deviceId ?req)" by (simp add: truthy_def)
  have h4: "getLicenseByKey (the (v_licenseKey ?req))
      (case v_productId ?req of None \<Rightarrow> PRODUCT_ID_DEFAULT | Some p \<Rightarrow> p) ?st = Some ?lic"
    by (simp add: gw_eval)
  have h5: "\<not> truthy (boundDevice ?lic) \<or> boundDevice ?lic = v_deviceId ?req"
    by (simp add: truthy_def)
  have h6: "status ?lic = Some ''trialing''" by simp
  have h7: "currentPeriodEnd ?lic = Some 98999" by simp
  have nz: "(98999::int) \<noteq> 0" by simp
  note th = verify_active_iff [OF h1 h2 h3 h4 h5 h6 h7, where t = 5000]
  from th [THEN conjunct2, THEN conjunct1]
  have a: "fst (actionVerify 5000 99000 ?req ?st) = (200, VerifyBody True (Some ''trialing'') (Some 98999))"
    by simp
  from th [THEN conjunct2, THEN conjunct2, THEN mp, OF nz]
  have b: "fst (actionVerify 5000 458999 ?req ?st) = (200, VerifyBody False (Some ''trialing'') (Some 98999))"
    by simp
  from th [where now = 398999, THEN conjunct1]
  have c: "fst (actionVerify 5000 398999 ?req ?st) = (200, VerifyBody True (Some ''trialing'') (Some 98999))"
    by simp
  from a b c show ?thesis by (intro conjI)
qed

subsection \<open>The license index\<close>

lemma ensureLicense_index_inv:
  assumes inv: "index_inv st"
  shows "index_inv (snd (ensureLicense r1 r2 now a st))"
proof (cases "MEM_LICENSES st (license_key_of (a_customerId a) (a_productId a))")
  case None
  let ?key = "license_key_of (a_customerId a) (a_productId a)"
  let ?lk = "randomKey ''LIC'' r1 r2"
  let ?new = "\<lparr>licenseKey = Some ?lk, customerId = Some (a_customerId a),
      productId = Some (a_productId a),
      email = Some (if truthy (a_email a) then the (a_email a) else []),
      status = Some (a_status a), currentPeriodEnd = Some (a_currentPeriodEnd a),
      boundDevice = Some [], deviceLimit = Some 1, updatedAt = Some now\<rparr>"
  let ?st' = "st\<lparr>MEM_LICENSES := (MEM_LICENSES st)(?key \<mapsto> ?new),
         MEM_INDEX := (MEM_INDEX st)(index_key_of ?lk \<mapsto>
            \<lparr>idx_customerId = a_customerId a, idx_productId = a_productId a\<rparr>)\<rparr>"
  have a: "\<forall>k r. MEM_LICENSES ?st' k = Some r \<longrightarrow> truthy (licenseKey r)"
    using inv randomKey_truthy [of r1 r2] by (auto simp: index_inv_def)
  have b: "\<forall>ik e. MEM_INDEX ?st' ik = Some e \<longrightarrow>
         (\<exists>lk k r. ik = index_key_of lk \<and> MEM_LICENSES ?st' k = Some r \<and> licenseKey r = Some lk)"
  proof (intro allI impI)
    fix ik e assume h: "MEM_INDEX ?st' ik = Some e"
    show "\<exists>lk k r. ik = index_key_of lk \<and> MEM_LICENSES ?st' k = Some r \<and> licenseKey r = Some lk"
    proof (cases "ik = index_key_of ?lk")
      case True
      have "MEM_LICENSES ?st' ?key = Some ?new \<and> licenseKey ?new = Some ?lk" by simp
      with True show ?thesis by blast
    next
      case False
      with h have "MEM_INDEX st ik = Some e" by simp
      with inv obtain lk k r where o: "ik = index_key_of lk" "MEM_LICENSES st k = Some r"
        "licenseKey r = Some lk"
        unfolding index_inv_def by blast
      from o(2) None have "k \<noteq> ?key" by auto
      with o(2) have "MEM_LICENSES ?st' k = Some r" by simp
      with o(1,3) show ?thesis by blast
    qed
  qed
  have c: "\<forall>k r lk. MEM_LICENSES ?st' k = Some r \<and> licenseKey r = Some lk \<longrightarrow>
         MEM_INDEX ?st' (index_key_of lk) \<noteq> None"
    using inv by (auto simp: index_inv_def)
  from a b c have "index_inv ?st'" unfolding index_inv_def by blast
  then show ?thesis by (simp add: ensureLicense_on_absent [OF None])
next
  case (Some old)
  let ?key = "license_key_of (a_customerId a) (a_productId a)"
  let ?upd = "old\<lparr>status := Some (a_status a),
                currentPeriodEnd :=
                  Some (if a_currentPeriodEnd a \<noteq> 0 then a_currentPeriodEnd a
                        else (case currentPeriodEnd old of None \<Rightarrow> 0 | Some e \<Rightarrow> e)),
                updatedAt := Some now\<rparr>"
  let ?st' = "st\<lparr>MEM_LICENSES := (MEM_LICENSES st)(?key \<mapsto> ?upd)\<rparr>"
  from inv Some have t: "truthy (licenseKey old)" unfolding index_inv_def by blast
  have a: "\<forall>k r. MEM_LICENSES ?st' k = Some r \<longrightarrow> truthy (licenseKey r)"
    using inv t by (auto simp: index_inv_def)
  have b: "\<forall>ik e. MEM_INDEX ?st' ik = Some e \<longrightarrow>
         (\<exists>lk k r. ik = index_key_of lk \<and> MEM_LICENSES ?st' k = Some r \<and> licenseKey r = Some lk)"
  proof (intro allI impI)
    fix ik e assume "MEM_INDEX ?st' ik = Some e"
    then have "MEM_INDEX st ik = Some e" by simp
    with inv obtain lk k r where o: "ik = index_key_of lk" "MEM_LICENSES st k = Some r"
      "licenseKey r = Some lk"
      unfolding index_inv_def by blast
    show "\<exists>lk k r. ik = index_key_of lk \<and> MEM_LICENSES ?st' k = Some r \<and> licenseKey r = Some lk"
    proof (cases "k = ?key")
      case True
      with o(2) Some have "r = old" by simp
      with o(3) have "MEM_LICENSES ?st' ?key = Some ?upd \<and> licenseKey ?upd = Some lk" by simp
      with o(1) show ?thesis by blast
    next
      case False
      with o(2) have "MEM_LICENSES ?st' k = Some r" by simp
      with o(1,3) show ?thesis by blast
    qed
  qed
  have c: "\<forall>k r lk. MEM_LICENSES ?st' k = Some r \<and> licenseKey r = Some lk \<longrightarrow>
         MEM_INDEX ?st' (index_key_of lk) \<noteq> None"
  proof (intro allI impI)
    fix k r lk assume h: "MEM_LICENSES ?st' k = Some r \<and> licenseKey r = Some lk"
    have "\<exists>r0. MEM_LICENSES st k = Some r0 \<and> licenseKey r0 = Some lk"
    proof (cases "k = ?key")
      case True
      with h Some show ?thesis by auto
    next
      case False
      with h show ?thesis by simp
    qed
    with inv show "MEM_INDEX ?st' (index_key_of lk) \<noteq> None"
      unfolding index_inv_def by auto
  qed
  from a b c have "index_inv ?st'" unfolding index_inv_def by blast
  then show ?thesis by (simp add: ensureLicense_on_existing [OF Some t])
qed

lemma ensure_calls_index_inv: "index_inv st \<Longrightarrow> index_inv (ensure_calls cs st)"
proof (induction cs arbitrary: st)
  case Nil
  then show ?case by simp
next
  case (Cons c cs)
  obtain r1 r2 now a where c: "c = (r1, r2, now, a)" by (cases c) auto
  from Cons.IH [OF ensureLicense_index_inv [OF Cons.prems]] c show ?case by simp
qed

lemma index_inv_init: "index_inv init_state"
  by (simp add: index_inv_def init_state_def)

text \<open>
  Claim C5, as amended. In the gateway, after any sequence of \<open>ensureLicense\<close> calls
  from empty stores an index entry exists under \<open>licenseIndex:K\<close> exactly if some license
  record bears the key \<open>K\<close>, and the index holds nothing else; on its creation path
  \<open>ensureLicense\<close> writes the record and the index entry together. The \<open>ensureLicense\<close>
  of \<open>/api/stripe-webhook.js\<close> keeps no index: it writes the license record and no
  other key of its store.
\<close>

theorem index_iff_record:
  "((MEM_INDEX (ensure_calls cs init_state) (index_key_of lk) \<noteq> None) =
      (\<exists>k r. MEM_LICENSES (ensure_calls cs init_state) k = Some r \<and> licenseKey r = Some lk))
   \<and> (MEM_INDEX (ensure_calls cs init_state) ik \<noteq> None \<longrightarrow> (\<exists>lk'. ik = index_key_of lk'))
   \<and> (kvHGetAll (license_key_of (a_customerId a) (a_productId a)) st = None \<longrightarrow>
        fst (ensureLicense r1 r2 now a st) = (True, randomKey ''LIC'' r1 r2) \<and>
        map_option licenseKey
          (kvHGetAll (license_key_of (a_customerId a) (a_productId a))
             (snd (ensureLicense r1 r2 now a st))) = Some (Some (randomKey ''LIC'' r1 r2)) \<and>
        kvIndexGet (index_key_of (randomKey ''LIC'' r1 r2)) (snd (ensureLicense r1 r2 now a st)) =
          Some \<lparr>idx_customerId = a_customerId a, idx_productId = a_productId a\<rparr>)
   \<and> (k' \<noteq> license_key_of (a_customerId a) (a_productId a) \<longrightarrow>
        snd (ensureLicense_webhook r1 r2 now a kv) k' = kv k')"
proof -
  let ?st = "ensure_calls cs init_state"
  have inv: "index_inv ?st" by (rule ensure_calls_index_inv [OF index_inv_init])
  have a: "(MEM_INDEX ?st (index_key_of lk) \<noteq> None) =
      (\<exists>k r. MEM_LICENSES ?st k = Some r \<and> licenseKey r = Some lk)"
  proof
    assume "MEM_INDEX ?st (index_key_of lk) \<noteq> None"
    then obtain e where "MEM_INDEX ?st (index_key_of lk) = Some e" by blast
    with inv obtain lk2 k r where o: "index_key_of lk = index_key_of lk2"
      "MEM_LICENSES ?st k = Some r" "licenseKey r = Some lk2"
      unfolding index_inv_def by blast
    from o(1) have "lk2 = lk" by (simp add: index_key_of_def)
    with o show "\<exists>k r. MEM_LICENSES ?st k = Some r \<and> licenseKey r = Some lk" by blast
  next
    assume "\<exists>k r. MEM_LICENSES ?st k = Some r \<and> licenseKey r = Some lk"
    with inv show "MEM_INDEX ?st (index_key_of lk) \<noteq> None"
      unfolding index_inv_def by blast
  qed
  have b: "MEM_INDEX ?st ik \<noteq> None \<longrightarrow> (\<exists>lk'. ik = index_key_of lk')"
    using inv unfolding index_inv_def by blast
  have c: "kvHGetAll (license_key_of (a_customerId a) (a_productId a)) st = None \<longrightarrow>
        fst (ensureLicense r1 r2 now a st) = (True, randomKey ''LIC'' r1 r2) \<and>
        map_option licenseKey
          (kvHGetAll (license_key_of (a_customerId a) (a_productId a))
             (snd (ensureLicense r1 r2 now a st))) = Some (Some (randomKey ''LIC'' r1 r2)) \<and>
        kvIndexGet (index_key_of (randomKey ''LIC'' r1 r2)) (snd (ensureLicense r1 r2 now a st)) =
          Some \<lparr>idx_customerId = a_customerId a, idx_productId = a_productId a\<rparr>"
  proof
    assume "kvHGetAll (license_key_of (a_customerId a) (a_productId a)) st = None"
    then have n: "MEM_LICENSES st (license_key_of (a_customerId a) (a_productId a)) = None"
      by (simp add: kvHGetAll_def)
    show "fst (ensureLicense r1 r2 now a st) = (True, randomKey ''LIC'' r1 r2) \<and>
        map_option licenseKey
          (kvHGetAll (license_key_of (a_customerId a) (a_productId a))
             (snd (ensureLicense r1 r2 now a st))) = Some (Some (randomKey ''LIC'' r1 r2)) \<and>
        kvIndexGet (index_key_of (randomKey ''LIC'' r1 r2)) (snd (ensureLicense r1 r2 now a st)) =
          Some \<lparr>idx_customerId = a_customerId a, idx_productId = a_productId a\<rparr>"
      by (simp add: ensureLicense_on_absent [OF n] kvHGetAll_def kvIndexGet_def)
  qed
  have d: "k' \<noteq> license_key_of (a_customerId a) (a_productId a) \<longrightarrow>
        snd (ensureLicense_webhook r1 r2 now a kv) k' = kv k'"
    by (simp add: ensureLicense_webhook_def Let_def)
  from a b c d show ?thesis by blast
qed

theorem index_iff_record_witness:
  "MEM_INDEX (ensure_calls
       [(''aaaa'', ''bbbb'', 1000, ex_args ''cus_1'' ''p1'' ''active'' 0),
        (''cccc'', ''dddd'', 2000, ex_args ''cus_1'' ''p1'' ''canceled'' 0)] init_state)
     (index_key_of ''LIC-AAAA-BBBB'') \<noteq> None
   \<and> (\<exists>lk'. ''licenseIndex:LIC-AAAA-BBBB'' = index_key_of lk')
   \<and> fst (ensureLicense ''aaaa'' ''bbbb'' 1000 (ex_args ''cus_1'' ''p1'' ''active'' 0) init_state)
       = (True, ''LIC-AAAA-BBBB'')
   \<and> kvIndexGet (index_key_of ''LIC-AAAA-BBBB'')
        (snd (ensureLicense ''aaaa'' ''bbbb'' 1000 (ex_args ''cus_1'' ''p1'' ''active'' 0) init_state))
       = Some \<lparr>idx_customerId = ''cus_1'', idx_productId = ''p1''\<rparr>
   \<and> snd (ensureLicense_webhook ''aaaa'' ''bbbb'' 1000 (ex_args ''cus_1'' ''p1'' ''active'' 0)
            Map.empty) ''licenseIndex:LIC-AAAA-BBBB'' = None"
proof -
  let ?a = "ex_args ''cus_1'' ''p1'' ''active'' 0"
  let ?cs = "[(''aaaa'', ''bbbb'', 1000, ?a),
        (''cccc'', ''dddd'', 2000, ex_args ''cus_1'' ''p1'' ''canceled'' 0)]"
  let ?st = "ensure_calls ?cs init_state"
  have key: "randomKey ''LIC'' ''aaaa'' ''bbbb'' = ''LIC-AAAA-BBBB''"
    by (simp add: randomKey_def toUpperCase_char_def)
  note th = index_iff_record [where cs = ?cs and lk = "''LIC-AAAA-BBBB''"
        and ik = "''licenseIndex:LIC-AAAA-BBBB''" and a = ?a and st = init_state
        and ?r1.0 = "''aaaa''" and ?r2.0 = "''bbbb''" and now = 1000
        and k' = "''licenseIndex:LIC-AAAA-BBBB''" and kv = Map.empty]
  have rec: "\<exists>k r. MEM_LICENSES ?st k = Some r \<and> licenseKey r = Some ''LIC-AAAA-BBBB''"
  proof (intro exI conjI)
    show "MEM_LICENSES ?st ''license:cus_1:p1''
        = Some (ex_lic ''LIC-AAAA-BBBB'' ''cus_1'' ''p1'' ''canceled'' 0 [] 2000)"
      by (simp add: gw_eval)
    show "licenseKey (ex_lic ''LIC-AAAA-BBBB'' ''cus_1'' ''p1'' ''canceled'' 0 [] 2000)
        = Some ''LIC-AAAA-BBBB''"
      by simp
  qed
  from th [THEN conjunct1] rec
  have a: "MEM_INDEX ?st (index_key_of ''LIC-AAAA-BBBB'') \<noteq> None" by blast
  have "MEM_INDEX ?st ''licenseIndex:LIC-AAAA-BBBB'' \<noteq> None"
    using a by (simp add: index_key_of_def)
  from th [THEN conjunct2, THEN conjunct1, THEN mp, OF this]
  have b: "\<exists>lk'. ''licenseIndex:LIC-AAAA-BBBB'' = index_key_of lk'" .
  have none: "kvHGetAll (license_key_of (a_customerId ?a) (a_productId ?a)) init_state = None"
    by (simp add: kvHGetAll_def init_state_def)
  note cr = th [THEN conjunct2, THEN conjunct2, THEN conjunct1, THEN mp, OF none]
  from cr [THEN conjunct1] key
  have c: "fst (ensureLicense ''aaaa'' ''bbbb'' 1000 ?a init_state) = (True, ''LIC-AAAA-BBBB'')"
    by simp
  from cr [THEN conjunct2, THEN conjunct2] key
  have d: "kvIndexGet (index_key_of ''LIC-AAAA-BBBB'')
        (snd (ensureLicense ''aaaa'' ''bbbb'' 1000 ?a init_state))
       = Some \<lparr>idx_customerId = ''cus_1'', idx_productId = ''p1''\<rparr>"
    by simp
  have ne: "''licenseIndex:LIC-AAAA-BBBB'' \<noteq> license_key_of (a_customerId ?a) (a_productId ?a)"
    by (simp add: license_key_of_def)
  from th [THEN conjunct2, THEN conjunct2, THEN conjunct2, THEN mp, OF ne]
  have e: "snd (ensureLicense_webhook ''aaaa'' ''bbbb'' 1000 ?a Map.empty)
      ''licenseIndex:LIC-AAAA-BBBB'' = None"
    by simp
  from a b c d e show ?thesis by (intro conjI)
qed

text \<open>
  The claim as it was stated fails on \<open>/api/stripe-webhook.js\<close>: after its
  \<open>ensureLicense\<close> has created a license in an empty store, a record bears the key
  \<open>LIC-AAAA-BBBB\<close> and no index entry exists for it.
\<close>

theorem index_iff_record_counterexample:
  "map_option licenseKey
     (snd (ensureLicense_webhook ''aaaa'' ''bbbb'' 1000 (ex_args ''cus_1'' ''p1'' ''active'' 0)
            Map.empty) ''license:cus_1:p1'') = Some (Some ''LIC-AAAA-BBBB'')
   \<and> snd (ensureLicense_webhook ''aaaa'' ''bbbb'' 1000 (ex_args ''cus_1'' ''p1'' ''active'' 0)
            Map.empty) (index_key_of ''LIC-AAAA-BBBB'') = None"
  by (simp add: gw_eval)

subsection \<open>Token issuance\<close>

text \<open>
  The claim C6 as it was stated fails: a session that is complete with
  \<open>payment_status = "no_payment_required"\<close> is answered 403 \<open>not paid\<close> by both token
  endpoints, and nothing is stored.
\<close>

theorem token_iff_paid_counterexample:
  "handler (Inr (Some (ex_session ''complete'' ''no_payment_required''))) [0x0A, 0xFF] 1000
     ex_token_req Map.empty
     = ((403, ErrorBody ''not paid''), Map.empty)
   \<and> actionMakeToken (ex_env (Inr (Some (ex_session ''complete'' ''no_payment_required''))) None)
       [0x0A, 0xFF] 1000 ex_token_req init_state
     = ((403, ErrorBody ''not paid''), init_state)"
  by (simp add: handler_def actionMakeToken_def truthy_def)

text \<open>
  Claim C6, as amended. A token endpoint that has its session id and whose
  \<open>retrieve\<close> call returns mints a token exactly when the session is not null and its
  \<open>payment_status\<close> is \<open>"paid"\<close>; otherwise it answers 403 \<open>not paid\<close> and stores
  nothing. In particular no token is stored for a session that is neither paid nor
  complete with no payment required.
\<close>

theorem token_iff_paid:
  assumes "http_method req = ''POST''" and "truthy (body_session_id req)"
    and "e_retrieve_session env = Inr so"
  shows "handler (Inr so) rb now req TOKENS =
      (if \<exists>s. so = Some s \<and> cs_payment_status s = ''paid''
       then ((200, TokenBody (toString_hex rb)),
             TOKENS(toString_hex rb \<mapsto>
               \<lparr>session_id = the (body_session_id req), exp = now + 30 * 60 * 1000\<rparr>))
       else ((403, ErrorBody ''not paid''), TOKENS))
    \<and> actionMakeToken env rb now req st =
      (if \<exists>s. so = Some s \<and> cs_payment_status s = ''paid''
       then ((200, TokenBody (toString_hex rb)),
             tokenSet (toString_hex rb)
               \<lparr>session_id = the (body_session_id req), exp = now + 30 * 60 * 1000\<rparr> st)
       else ((403, ErrorBody ''not paid''), st))
    \<and> (\<not> (cs_payment_status s' = ''paid'' \<or>
            cs_status s' = ''complete'' \<and> cs_payment_status s' = ''no_payment_required'') \<longrightarrow>
         snd (handler (Inr (Some s')) rb now req TOKENS) = TOKENS)"
  using assms
  by (cases so) (auto simp add: handler_def actionMakeToken_def Let_def)

theorem token_iff_paid_witness:
  "handler (Inr (Some (ex_session ''complete'' ''paid''))) [0x0A, 0xFF] 1000 ex_token_req Map.empty
     = ((200, TokenBody ''0aff''), [''0aff'' \<mapsto> \<lparr>session_id = ''cs_1'', exp = 1801000\<rparr>])
   \<and> actionMakeToken (ex_env (Inr (Some (ex_session ''complete'' ''paid''))) None)
       [0x0A, 0xFF] 1000 ex_token_req init_state
     = ((200, TokenBody ''0aff''),
        tokenSet ''0aff'' \<lparr>session_id = ''cs_1'', exp = 1801000\<rparr> init_state)
   \<and> snd (handler (Inr (Some (ex_session ''open'' ''unpaid''))) [0x0A, 0xFF] 1000 ex_token_req
        Map.empty) = Map.empty"
proof -
  let ?s = "ex_session ''complete'' ''paid''"
  let ?env = "ex_env (Inr (Some ?s)) None"
  have h1: "http_method ex_token_req = ''POST''" by simp
  have h2: "truthy (body_session_id ex_token_req)" by (simp add: truthy_def)
  have h3: "e_retrieve_session ?env = Inr (Some ?s)" by simp
  have hex: "toString_hex [0x0A, 0xFF] = ''0aff''"
    by (simp add: toString_hex_def byte_hex_def hex_digit_def)
  have unpaid: "\<not> (cs_payment_status (ex_session ''open'' ''unpaid'') = ''paid'' \<or>
      cs_status (ex_session ''open'' ''unpaid'') = ''complete'' \<and>
      cs_payment_status (ex_session ''open'' ''unpaid'') = ''no_payment_required'')"
    by simp
  note th = token_iff_paid [OF h1 h2 h3, where rb = "[0x0A, 0xFF]" and now = 1000
      and TOKENS = Map.empty and st = init_state and s' = "ex_session ''open'' ''unpaid''"]
  from th [THEN conjunct1] hex
  have a: "handler (Inr (Some ?s)) [0x0A, 0xFF] 1000 ex_token_req Map.empty
     = ((200, TokenBody ''0aff''), [''0aff'' \<mapsto> \<lparr>session_id = ''cs_1'', exp = 1801000\<rparr>])"
    by simp
  from th [THEN conjunct2, THEN conjunct1] hex
  have b: "actionMakeToken ?env [0x0A, 0xFF] 1000 ex_token_req init_state
     = ((200, TokenBody ''0aff''),
        tokenSet ''0aff'' \<lparr>session_id = ''cs_1'', exp = 1801000\<rparr> init_state)"
    by simp
  note c = th [THEN conjunct2, THEN conjunct2, THEN mp, OF unpaid]
  from a b c show ?thesis by (intro conjI)
qed

subsection \<open>Token expiry and size\<close>

lemma hex_digit_inj:
  assumes "m < 16" "n < 16" "hex_digit m = hex_digit n"
  shows "m = n"
proof -
  have d: "distinct ''0123456789abcdef''" by simp
  have l: "length ''0123456789abcdef'' = 16" by simp
  from assms show ?thesis
    unfolding hex_digit_def using nth_eq_iff_index_eq [OF d, of m n] l by simp
qed

lemma byte_hex_inj:
  assumes "byte_hex a = byte_hex b"
  shows "a = b"
proof -
  have la: "unat a < 256" using unsigned_less [of a, where ?'a = nat] by simp
  have lb: "unat b < 256" using unsigned_less [of b, where ?'a = nat] by simp
  from la have a16: "unat a div 16 < 16" by simp
  from lb have b16: "unat b div 16 < 16" by simp
  from assms have h: "hex_digit (unat a div 16) = hex_digit (unat b div 16)"
    and l: "hex_digit (unat a mod 16) = hex_digit (unat b mod 16)"
    by (simp_all add: byte_hex_def)
  from hex_digit_inj [OF a16 b16 h] have d: "unat a div 16 = unat b div 16" .
  have "unat a mod 16 < 16" "unat b mod 16 < 16" by simp_all
  from hex_digit_inj [OF this l] have m: "unat a mod 16 = unat b mod 16" .
  have "unat a = 16 * (unat a div 16) + unat a mod 16" by simp
  also have "\<dots> = 16 * (unat b div 16) + unat b mod 16" using d m by simp
  also have "\<dots> = unat b" by simp
  finally show ?thesis by (simp add: word_unat_eq_iff)
qed

lemma length_byte_hex: "length (byte_hex b) = 2"
  by (simp add: byte_hex_def)

lemma length_toString_hex: "length (toString_hex bs) = 2 * length bs"
  by (induction bs) (simp_all add: toString_hex_def length_byte_hex)

lemma toString_hex_inj: "toString_hex xs = toString_hex ys \<Longrightarrow> xs = ys"
proof (induction xs arbitrary: ys)
  case Nil
  then have "length (toString_hex ys) = 0" by (simp add: toString_hex_def)
  then show ?case by (simp add: length_toString_hex)
next
  case (Cons x xs)
  from Cons.prems have "length (toString_hex ys) = 2 * Suc (length xs)"
    using length_toString_hex [of "x # xs"] by simp
  then obtain y ys' where ys: "ys = y # ys'"
    by (cases ys) (simp_all add: length_toString_hex)
  from Cons.prems ys have "byte_hex x @ toString_hex xs = byte_hex y @ toString_hex ys'"
    by (simp add: toString_hex_def)
  then have "byte_hex x = byte_hex y \<and> toString_hex xs = toString_hex ys'"
    by (simp add: length_byte_hex)
  with Cons.IH [of ys'] byte_hex_inj ys show ?case by blast
qed

lemma card_tokens: "card (toString_hex ` {bs. length bs = 24}) = 2 ^ 192"
proof -
  have "inj_on toString_hex {bs. length bs = 24}"
    by (rule inj_onI) (rule toString_hex_inj)
  then have "card (toString_hex ` {bs. length bs = 24}) = card {bs :: 8 word list. length bs = 24}"
    by (rule card_image)
  also have "\<dots> = card {bs :: 8 word list. set bs \<subseteq> UNIV \<and> length bs = 24}"
    by simp
  also have "\<dots> = card (UNIV :: 8 word set) ^ 24"
    by (rule card_lists_length_eq) simp
  also have "\<dots> = 2 ^ 192"
    by (simp add: card_word)
  finally show ?thesis .
qed

lemma consume_calls_sub:
  "snd (consume_calls cs m) k = None \<or> snd (consume_calls cs m) k = m k"
proof (induction cs arbitrary: m)
  case Nil
  then show ?case by simp
next
  case (Cons c cs)
  have s: "snd (consume_calls (c # cs) m) = snd (consume_calls cs (m(snd c := None)))"
    by (simp add: split_beta Let_def consumeToken_store)
  have "(m(snd c := None)) k = None \<or> (m(snd c := None)) k = m k" by simp
  with Cons.IH [of "m(snd c := None)"] consume_calls_keeps_none [of "m(snd c := None)" k cs]
  show ?case unfolding s by metis
qed

lemma consume_after_expiry:
  assumes "m tok = Some r" "exp r < now'"
  shows "fst (consumeToken now' tok (snd (consume_calls cs m))) = None"
  using consume_calls_sub [of cs m tok] assms
  by (auto simp add: consumeToken_result)

lemma ensureLicense_tokens: "MEM_TOKENS (snd (ensureLicense r1 r2 now a st)) = MEM_TOKENS st"
  by (simp add: ensureLicense_def kvIndexSet_def Let_def)

lemma markCanceled_tokens: "MEM_TOKENS (markCanceled now cid pid st) = MEM_TOKENS st"
  by (simp add: markCanceled_def Let_def)

lemma handleStripeWebhook_tokens:
  "MEM_TOKENS (snd (snd (handleStripeWebhook env r1 r2 rb t now ev st))) = MEM_TOKENS st \<or>
   (\<exists>sid. MEM_TOKENS (snd (snd (handleStripeWebhook env r1 r2 rb t now ev st))) =
      (MEM_TOKENS st)(toString_hex rb \<mapsto> \<lparr>session_id = sid, exp = now + 30 * 60 * 1000\<rparr>))"
proof (cases ev)
  case (Inl msg)
  then show ?thesis by (simp add: handleStripeWebhook_def)
next
  case (Inr event)
  show ?thesis
  proof (cases event)
    case (CheckoutSessionCompleted s)
    with Inr show ?thesis
      by (auto simp add: handleStripeWebhook_def Let_def split_beta ensureLicense_tokens
          tokenSet_def split: sum.splits option.splits)
  next
    case (SubscriptionCreated sub)
    with Inr show ?thesis by (simp add: handleStripeWebhook_def ensureLicense_tokens)
  next
    case (SubscriptionUpdated sub)
    with Inr show ?thesis by (simp add: handleStripeWebhook_def ensureLicense_tokens)
  next
    case (SubscriptionDeleted sub)
    with Inr show ?thesis by (simp add: handleStripeWebhook_def markCanceled_tokens)
  next
    case (InvoicePaymentFailed iv)
    with Inr show ?thesis
      by (simp add: handleStripeWebhook_def markCanceled_tokens split: sum.splits)
  next
    case OtherEvent
    with Inr show ?thesis by (simp add: handleStripeWebhook_def)
  qed
qed

text \<open>
  Claim C7. Every path that issues a token (the handler of
  \<open>/api/make-download-token.js\<close>; \<open>actionMakeToken\<close>, \<open>actionThanks\<close> and the webhook
  of the gateway) either leaves the token store as it was or adds one record, under the
  hexadecimal form of the random bytes drawn, whose \<open>exp\<close> is the issuing clock reading
  plus 30 minutes. The bytes drawn are 24: the token has 48 characters, distinct draws
  give distinct tokens, and there are \<open>2 ^ 192\<close> tokens, more than \<open>2 ^ 128\<close>. A token
  issued with expiry \<open>T\<close> is not found by a consume call at any time after \<open>T\<close>,
  whether it is the first consume call or comes after others.
\<close>

theorem token_expiry:
  assumes "length rb = 24"
    and "http_method req = ''POST''" and "truthy (body_session_id req)"
    and "e_retrieve_session env = Inr (Some s)" and "cs_payment_status s = ''paid''"
    and "now + 30 * 60 * 1000 < now'"
  shows "handler (Inr (Some s)) rb now req TOKENS =
      ((200, TokenBody (toString_hex rb)),
       TOKENS(toString_hex rb \<mapsto>
         \<lparr>session_id = the (body_session_id req), exp = now + 30 * 60 * 1000\<rparr>))
    \<and> fst (consumeToken now' (toString_hex rb)
         (snd (consume_calls cs (snd (handler (Inr (Some s)) rb now req TOKENS))))) = None
    \<and> actionMakeToken env rb now req st =
      ((200, TokenBody (toString_hex rb)),
       st\<lparr>MEM_TOKENS := (MEM_TOKENS st)(toString_hex rb \<mapsto>
         \<lparr>session_id = the (body_session_id req), exp = now + 30 * 60 * 1000\<rparr>)\<rparr>)
    \<and> fst (tokenConsume now' (toString_hex rb)
         (snd (tokenConsume_calls cs (snd (actionMakeToken env rb now req st))))) = None
    \<and> (snd (handler retrieved rb now req' TOKENS) = TOKENS \<or>
        (\<exists>sid. snd (handler retrieved rb now req' TOKENS) =
           TOKENS(toString_hex rb \<mapsto> \<lparr>session_id = sid, exp = now + 30 * 60 * 1000\<rparr>)))
    \<and> (MEM_TOKENS (snd (actionMakeToken env' rb now req' st)) = MEM_TOKENS st \<or>
        (\<exists>sid. MEM_TOKENS (snd (actionMakeToken env' rb now req' st)) =
           (MEM_TOKENS st)(toString_hex rb \<mapsto> \<lparr>session_id = sid, exp = now + 30 * 60 * 1000\<rparr>)))
    \<and> (MEM_TOKENS (snd (actionThanks env' rb now sid' st)) = MEM_TOKENS st \<or>
        (\<exists>sid. MEM_TOKENS (snd (actionThanks env' rb now sid' st)) =
           (MEM_TOKENS st)(toString_hex rb \<mapsto> \<lparr>session_id = sid, exp = now + 30 * 60 * 1000\<rparr>)))
    \<and> (MEM_TOKENS (snd (snd (handleStripeWebhook env' r1 r2 rb t now ev st))) = MEM_TOKENS st \<or>
        (\<exists>sid. MEM_TOKENS (snd (snd (handleStripeWebhook env' r1 r2 rb t now ev st))) =
           (MEM_TOKENS st)(toString_hex rb \<mapsto> \<lparr>session_id = sid, exp = now + 30 * 60 * 1000\<rparr>)))
    \<and> length (toString_hex rb) = 48
    \<and> (toString_hex rb = toString_hex rb') = (rb = rb')
    \<and> card (toString_hex ` {bs. length bs = 24}) = 2 ^ 192
    \<and> (2::nat) ^ 128 \<le> card (toString_hex ` {bs. length bs = 24})"
proof -
  let ?rec = "\<lparr>session_id = the (body_session_id req), exp = now + 30 * 60 * 1000\<rparr>"
  have h: "handler (Inr (Some s)) rb now req TOKENS =
      ((200, TokenBody (toString_hex rb)), TOKENS(toString_hex rb \<mapsto> ?rec))"
    using assms(2,3,5) by (simp add: handler_def Let_def)
  have hc: "fst (consumeToken now' (toString_hex rb)
         (snd (consume_calls cs (snd (handler (Inr (Some s)) rb now req TOKENS))))) = None"
    unfolding h using assms(6)
    by (intro consume_after_expiry [where r = ?rec]) simp_all
  have g: "actionMakeToken env rb now req st =
      ((200, TokenBody (toString_hex rb)),
       st\<lparr>MEM_TOKENS := (MEM_TOKENS st)(toString_hex rb \<mapsto> ?rec)\<rparr>)"
    using assms(2-5) by (simp add: actionMakeToken_def tokenSet_def Let_def)
  have gc: "fst (tokenConsume now' (toString_hex rb)
         (snd (tokenConsume_calls cs (snd (actionMakeToken env rb now req st))))) = None"
    unfolding g using assms(6)
      consume_after_expiry [where m = "(MEM_TOKENS st)(toString_hex rb \<mapsto> ?rec)"
        and tok = "toString_hex rb" and r = ?rec and now' = now' and cs = cs]
    by (simp add: tokenConsume_eq tokenConsume_calls_eq)
  have p1: "snd (handler retrieved rb now req' TOKENS) = TOKENS \<or>
        (\<exists>sid. snd (handler retrieved rb now req' TOKENS) =
           TOKENS(toString_hex rb \<mapsto> \<lparr>session_id = sid, exp = now + 30 * 60 * 1000\<rparr>))"
    by (auto simp add: handler_def Let_def split: sum.splits)
  have p2: "MEM_TOKENS (snd (actionMakeToken env' rb now req' st)) = MEM_TOKENS st \<or>
        (\<exists>sid. MEM_TOKENS (snd (actionMakeToken env' rb now req' st)) =
           (MEM_TOKENS st)(toString_hex rb \<mapsto> \<lparr>session_id = sid, exp = now + 30 * 60 * 1000\<rparr>))"
    by (auto simp add: actionMakeToken_def tokenSet_def Let_def split: sum.splits)
  have p3: "MEM_TOKENS (snd (actionThanks env' rb now sid' st)) = MEM_TOKENS st \<or>
        (\<exists>sid. MEM_TOKENS (snd (actionThanks env' rb now sid' st)) =
           (MEM_TOKENS st)(toString_hex rb \<mapsto> \<lparr>session_id = sid, exp = now + 30 * 60 * 1000\<rparr>))"
    by (auto simp add: actionThanks_def tokenSet_def Let_def split: sum.splits)
  note p4 = handleStripeWebhook_tokens [of env' r1 r2 rb t now ev st]
  have l: "length (toString_hex rb) = 48"
    using assms(1) by (simp add: length_toString_hex)
  have i: "(toString_hex rb = toString_hex rb') = (rb = rb')"
    using toString_hex_inj by blast
  have c: "(2::nat) ^ 128 \<le> card (toString_hex ` {bs. length bs = 24})"
    unfolding card_tokens by simp
  from h hc g gc p1 p2 p3 p4 l i card_tokens c show ?thesis
    by (intro conjI)
qed

theorem token_expiry_witness:
  "handler (Inr (Some (ex_session ''complete'' ''paid''))) (replicate 24 0x5C) 1000 ex_token_req
      Map.empty
     = ((200, TokenBody (toString_hex (replicate 24 0x5C))),
        [toString_hex (replicate 24 0x5C) \<mapsto> \<lparr>session_id = ''cs_1'', exp = 1801000\<rparr>])
   \<and> fst (consumeToken 1801001 (toString_hex (replicate 24 0x5C))
        (snd (handler (Inr (Some (ex_session ''complete'' ''paid''))) (replicate 24 0x5C) 1000
               ex_token_req Map.empty))) = None
   \<and> length (toString_hex (replicate 24 (0x5C :: 8 word))) = 48"
proof -
  let ?s = "ex_session ''complete'' ''paid''"
  let ?env = "ex_env (Inr (Some ?s)) None"
  have len: "length (replicate 24 (0x5C :: 8 word)) = 24" by simp
  have post: "http_method ex_token_req = ''POST''" by simp
  have sid: "truthy (body_session_id ex_token_req)" by (simp add: truthy_def)
  have env: "e_retrieve_session ?env = Inr (Some ?s)" by simp
  have paid: "cs_payment_status ?s = ''paid''" by simp
  have late: "(1000::int) + 30 * 60 * 1000 < 1801001" by simp
  note th = token_expiry [OF len post sid env paid late, where cs = "[]" and TOKENS = Map.empty
      and st = init_state and retrieved = "Inl StripeError" and env' = ?env and sid' = None
      and req' = ex_token_req and ?r1.0 = "[]" and ?r2.0 = "[]" and t = 1000 and ev = "Inl []" and rb' = "[]"]
  note rest = th [THEN conjunct2, THEN conjunct2, THEN conjunct2, THEN conjunct2]
  from th [THEN conjunct1]
  have a: "handler (Inr (Some ?s)) (replicate 24 0x5C) 1000 ex_token_req Map.empty
     = ((200, TokenBody (toString_hex (replicate 24 0x5C))),
        [toString_hex (replicate 24 0x5C) \<mapsto> \<lparr>session_id = ''cs_1'', exp = 1801000\<rparr>])"
    by simp
  from th [THEN conjunct2, THEN conjunct1]
  have b: "fst (consumeToken 1801001 (toString_hex (replicate 24 0x5C))
        (snd (handler (Inr (Some ?s)) (replicate 24 0x5C) 1000 ex_token_req Map.empty))) = None"
    by simp
  from rest [THEN conjunct2, THEN conjunct2, THEN conjunct2, THEN conjunct2, THEN conjunct1]
  have c: "length (toString_hex (replicate 24 (0x5C :: 8 word))) = 48" .
  from a b c show ?thesis by (intro conjI)
qed

subsection \<open>Webhook and the email sender\<close>

lemma handler_email_webhook_received:
  "fst (handler_email_webhook fetched sent ''POST'' (Inr ev)) = Inr (200, ReceivedBody)"
  by (cases ev) (simp_all add: handler_email_webhook_def split: sum.splits option.splits)

lemma handleStripeWebhook_email_throws:
  assumes "e_resend env" and "truthy (cs_email s)" and "\<not> truthy (cs_subscription s)"
    and "e_send_email env = Some err"
  shows "fst (handleStripeWebhook env r1 r2 rb t now (Inr (CheckoutSessionCompleted s)) st) = Inl err"
  using assms by (simp add: handleStripeWebhook_def Let_def split_beta)

lemma gateway_handler_webhook:
  "truthy (g_stripe_signature req) \<Longrightarrow>
   gateway_handler env d req st =
     handleStripeWebhook env (d_r1 d) (d_r2 d) (d_rb d) (d_t d) (d_now d) (g_signed req) st"
  by (simp add: gateway_handler_def)

text \<open>
  Claim C9 holds for the version of \<open>/api/stripe-webhook.js\<close> that mails a download
  link, whose \<open>try\<close>/\<open>catch\<close> logs the failure and answers \<open>{received:true}\<close>. It fails
  for the gateway and for the version of \<open>/api/stripe-webhook.js\<close> that keeps licenses:
  there \<open>resend.emails.send\<close> is awaited outside any \<open>try\<close>, so for a signed
  \<open>checkout.session.completed\<close> event with a customer email, an exception of the
  sender leaves the handler, nothing is logged and no response is sent.
\<close>

theorem webhook_email_failure:
  "fst (gateway_handler (ex_env (Inl StripeError) (Some EmailError)) ex_draws
         (ex_webhook_req (CheckoutSessionCompleted (ex_session ''complete'' ''paid'')))
         init_state) = Inl EmailError
   \<and> fst (snd (gateway_handler (ex_env (Inl StripeError) (Some EmailError)) ex_draws
         (ex_webhook_req (CheckoutSessionCompleted (ex_session ''complete'' ''paid'')))
         init_state)) = []
   \<and> fst (handler_license_webhook (ex_env (Inl StripeError) (Some EmailError))
         ''aaaa'' ''bbbb'' 1000 ''POST''
         (Inr (CheckoutSessionCompleted (ex_session ''complete'' ''paid''))) Map.empty)
       = Inl EmailError
   \<and> handler_email_webhook (Inr ''0aff'') (Some EmailError) ''POST''
         (Inr (CheckoutSessionCompleted (ex_session ''complete'' ''paid'')))
       = (Inr (200, ReceivedBody), [''email/send error:''])"
  by (simp add: gateway_handler_def handleStripeWebhook_def handler_license_webhook_def
      handler_email_webhook_def ensureLicense_webhook_def truthy_def Let_def split_beta)

subsection \<open>Resolving a license key\<close>

text \<open>
  Claim C10. \<open>getLicenseByKey\<close> reads the record under the customer of the index entry
  and the product given by the caller: the product stored in the index entry plays no
  part. So when customer \<open>cus_1\<close> holds a license for \<open>pA\<close> (key \<open>LIC-AAAA-BBBB\<close>) and one
  for \<open>pB\<close> (key \<open>LIC-CCCC-DDDD\<close>), presenting the key of \<open>pA\<close> with product \<open>pB\<close>
  returns the \<open>pB\<close> record, whose own key differs; verify then answers with that
  record's status and binds the device to it, leaving the \<open>pA\<close> record unbound.
\<close>

theorem getLicenseByKey_ignores_index_product:
  "getLicenseByKey lk pid
     (kvIndexSet (index_key_of lk) \<lparr>idx_customerId = c, idx_productId = q\<rparr> st)
     = kvHGetAll (license_key_of c pid) st
   \<and> map_option licenseKey
       (getLicenseByKey ''LIC-AAAA-BBBB'' ''pB''
         (run [Ensure ''aaaa'' ''bbbb'' 1000 (ex_args ''cus_1'' ''pA'' ''active'' 0),
               Ensure ''cccc'' ''dddd'' 1100 (ex_args ''cus_1'' ''pB'' ''past_due'' 0)] init_state))
     = Some (Some ''LIC-CCCC-DDDD'')
   \<and> fst (actionVerify 5000 5001 (ex_verify ''LIC-AAAA-BBBB'' ''dev-1'' (Some ''pB''))
         (run [Ensure ''aaaa'' ''bbbb'' 1000 (ex_args ''cus_1'' ''pA'' ''active'' 0),
               Ensure ''cccc'' ''dddd'' 1100 (ex_args ''cus_1'' ''pB'' ''past_due'' 0)] init_state))
     = (200, VerifyBody False (Some ''past_due'') (Some 0))
   \<and> map_option boundDevice
       (MEM_LICENSES
         (run [Ensure ''aaaa'' ''bbbb'' 1000 (ex_args ''cus_1'' ''pA'' ''active'' 0),
               Ensure ''cccc'' ''dddd'' 1100 (ex_args ''cus_1'' ''pB'' ''past_due'' 0),
               Verify 5000 5001 (ex_verify ''LIC-AAAA-BBBB'' ''dev-1'' (Some ''pB''))] init_state)
         ''license:cus_1:pB'') = Some (Some ''dev-1'')
   \<and> map_option boundDevice
       (MEM_LICENSES
         (run [Ensure ''aaaa'' ''bbbb'' 1000 (ex_args ''cus_1'' ''pA'' ''active'' 0),
               Ensure ''cccc'' ''dddd'' 1100 (ex_args ''cus_1'' ''pB'' ''past_due'' 0),
               Verify 5000 5001 (ex_verify ''LIC-AAAA-BBBB'' ''dev-1'' (Some ''pB''))] init_state)
         ''license:cus_1:pA'') = Some (Some [])"
proof -
  have general: "getLicenseByKey lk pid
     (kvIndexSet (index_key_of lk) \<lparr>idx_customerId = c, idx_productId = q\<rparr> st)
     = kvHGetAll (license_key_of c pid) st"
    by (simp add: getLicenseByKey_def kvIndexGet_def kvIndexSet_def kvHGetAll_def)
  show ?thesis
    unfolding general by (simp add: gw_eval)
qed

theorem getLicenseByKey_ignores_index_product_witness:
  "map_option licenseKey
     (getLicenseByKey ''LIC-AAAA-BBBB'' ''pB''
       (kvIndexSet (index_key_of ''LIC-AAAA-BBBB'')
         \<lparr>idx_customerId = ''cus_1'', idx_productId = ''pA''\<rparr>
         (run [Ensure ''cccc'' ''dddd'' 1100 (ex_args ''cus_1'' ''pB'' ''past_due'' 0)]
            init_state)))
     = Some (Some ''LIC-CCCC-DDDD'')"
proof -
  let ?st = "run [Ensure ''cccc'' ''dddd'' 1100 (ex_args ''cus_1'' ''pB'' ''past_due'' 0)] init_state"
  note th = getLicenseByKey_ignores_index_product [where lk = "''LIC-AAAA-BBBB''"
      and pid = "''pB''" and c = "''cus_1''" and q = "''pA''" and st = ?st]
  have "map_option licenseKey (kvHGetAll (license_key_of ''cus_1'' ''pB'') ?st)
      = Some (Some ''LIC-CCCC-DDDD'')"
    by (simp add: gw_eval)
  with th [THEN conjunct1] show ?thesis by simp
qed

end
